theory Spec2Isabelle
  imports Main "HOL-Library.Word"
begin

unbundle bit_operations_syntax

section \<open>The echo prober: pkg/pan/internal/ping/ping.go\<close>

subsection \<open>Data of the packet layer, as ping.go uses it\<close>

text \<open>
  The SCION library types that ping.go reads and builds. Only the fields the file touches
  are kept. A Go pointer that may be nil is an \<open>option\<close>; a byte slice is a list of
  8-bit words.
\<close>

type_synonym byte = "8 word"

record IA =
  I :: "16 word"
  A :: "64 word"

text \<open>\<open>addr.IA.Equal\<close> compares both components.\<close>

definition IA_Equal :: "IA \<Rightarrow> IA \<Rightarrow> bool" where
  "IA_Equal x y = (I x = I y \<and> A x = A y)"

record net_UDPAddr =
  IP :: "byte list"
  Port :: int
  Zone :: string

record spath_Path =
  Raw :: "byte list"
  Type :: "8 word"

text \<open>\<open>spath.Path.IsEmpty\<close>: a path with no raw bytes.\<close>

definition IsEmpty :: "spath_Path \<Rightarrow> bool" where
  "IsEmpty p = (Raw p = [])"

record snet_UDPAddr =
  UA_IA :: IA
  UA_Path :: spath_Path
  UA_NextHop :: "net_UDPAddr option"
  UA_Host :: net_UDPAddr

record SCIONAddress =
  SA_IA :: IA
  SA_Host :: "byte list"

record SCMPEchoRequest =
  Req_Identifier :: "16 word"
  Req_SeqNumber :: "16 word"
  Req_Payload :: "byte list"

record SCMPEchoReply =
  Identifier :: "16 word"
  SeqNumber :: "16 word"
  Payload :: "byte list"

record SCMPExternalInterfaceDown =
  EID_IA :: IA
  EID_Interface :: "64 word"

record SCMPInternalConnectivityDown =
  ICD_IA :: IA
  ICD_Ingress :: "64 word"
  ICD_Egress :: "64 word"

text \<open>
  \<open>snet.Packet.Payload\<close> is an interface value: nil, one of the three SCMP messages the
  handler switches on, an echo request (what \<open>pack\<close> builds), or any other payload
  type, kept by its type name.
\<close>

datatype snet_Payload =
    NilPayload
  | EchoReplyPld SCMPEchoReply
  | EchoRequestPld SCMPEchoRequest
  | ExternalInterfaceDownPld SCMPExternalInterfaceDown
  | InternalConnectivityDownPld SCMPInternalConnectivityDown
  | OtherPld string

record snet_Packet =
  Bytes :: "byte list"
  Destination :: SCIONAddress
  Source :: SCIONAddress
  Path :: spath_Path
  Pld :: snet_Payload

text \<open>The errors ping.go creates, and those it passes on from the connection.\<close>

datatype ping_error =
    NoV2Payload
  | ExternalInterfaceDownError SCMPExternalInterfaceDown spath_Path
  | InternalConnectivityDownError SCMPInternalConnectivityDown spath_Path
  | NotSCMPEchoReply string
  | WrongSCMPID "16 word" "16 word"
  | NoPathForRemote IA IA
  | ConnError string

text \<open>
  A \<open>time.Time\<close> is an instant, counted in nanoseconds since the Unix epoch; a
  \<open>time.Duration\<close> is a signed 64-bit count of nanoseconds.
\<close>

type_synonym Time = int
type_synonym Duration = int

record Reply =
  Received :: Time
  R_Source :: SCIONAddress
  R_Path :: spath_Path
  Size :: int
  R_Reply :: SCMPEchoReply
  Error :: "ping_error option"

text \<open>The zero value \<open>snet.SCMPEchoReply{}\<close>.\<close>

definition emptyEchoReply :: SCMPEchoReply where
  "emptyEchoReply = \<lparr>Identifier = 0, SeqNumber = 0, Payload = []\<rparr>"

subsection \<open>The reply channel\<close>

text \<open>
  A buffered Go channel: the values waiting in it, oldest first, and its capacity. A send
  on a full channel blocks: \<open>chan_send\<close> is then \<open>None\<close> and the channel is as it was.
\<close>

record 'a chan =
  buf :: "'a list"
  cap :: nat

definition make_chan :: "nat \<Rightarrow> 'a chan" where
  "make_chan n = \<lparr>buf = [], cap = n\<rparr>"

definition chan_send :: "'a chan \<Rightarrow> 'a \<Rightarrow> 'a chan option" where
  "chan_send c v = (if length (buf c) < cap c then Some (c\<lparr>buf := buf c @ [v]\<rparr>) else None)"

subsection \<open>The SCMP handler\<close>

record scmpHandler =
  h_id :: "16 word"

text \<open>\<open>scmpHandler.handle\<close>: the classification of one inbound packet.\<close>

definition handle :: "scmpHandler \<Rightarrow> snet_Packet \<Rightarrow> SCMPEchoReply \<times> ping_error option" where
  "handle h pkt =
     (case Pld pkt of
        NilPayload \<Rightarrow> (emptyEchoReply, Some NoV2Payload)
      | EchoReplyPld r \<Rightarrow>
          (if Identifier r \<noteq> h_id h
           then (emptyEchoReply, Some (WrongSCMPID (h_id h) (Identifier r)))
           else (r, None))
      | ExternalInterfaceDownPld s \<Rightarrow>
          (emptyEchoReply, Some (ExternalInterfaceDownError s (Path pkt)))
      | InternalConnectivityDownPld s \<Rightarrow>
          (emptyEchoReply, Some (InternalConnectivityDownError s (Path pkt)))
      | EchoRequestPld q \<Rightarrow> (emptyEchoReply, Some (NotSCMPEchoReply ''snet.SCMPEchoRequest''))
      | OtherPld ty \<Rightarrow> (emptyEchoReply, Some (NotSCMPEchoReply ty)))"

text \<open>
  \<open>scmpHandler.Handle\<close>: classify, send one \<open>Reply\<close> on the channel, return nil. The
  clock reading \<open>now\<close> is an input. The outcome is either \<open>Blocked\<close> (the channel is
  full, the send has not happened) or \<open>Returned c err\<close> with the channel after the send
  and the error the method returns.
\<close>

datatype 'c outcome = Blocked | Returned 'c "ping_error option"

definition mkReply :: "scmpHandler \<Rightarrow> Time \<Rightarrow> snet_Packet \<Rightarrow> Reply" where
  "mkReply h now pkt =
     \<lparr>Received = now, R_Source = Source pkt, R_Path = Path pkt,
      Size = int (length (Bytes pkt)),
      R_Reply = fst (handle h pkt), Error = snd (handle h pkt)\<rparr>"

definition Handle :: "scmpHandler \<Rightarrow> Time \<Rightarrow> snet_Packet \<Rightarrow> Reply chan \<Rightarrow> Reply chan outcome" where
  "Handle h now pkt replies =
     (case chan_send replies (mkReply h now pkt) of
        None \<Rightarrow> Blocked
      | Some replies' \<Rightarrow> Returned replies' None)"

subsection \<open>Byte order and time, as the standard library defines them\<close>

text \<open>
  \<open>binary.BigEndian.PutUint64\<close> writes the first eight bytes of the slice and
  \<open>binary.BigEndian.Uint64\<close> reads them; both panic on a slice shorter than eight
  bytes, which is \<open>None\<close> here.
\<close>

definition PutUint64 :: "byte list \<Rightarrow> 64 word \<Rightarrow> byte list option" where
  "PutUint64 b v =
     (if length b < 8 then None
      else Some ([ucast (drop_bit 56 v), ucast (drop_bit 48 v), ucast (drop_bit 40 v),
                  ucast (drop_bit 32 v), ucast (drop_bit 24 v), ucast (drop_bit 16 v),
                  ucast (drop_bit 8 v), ucast v] @ drop 8 b))"

definition Uint64 :: "byte list \<Rightarrow> 64 word option" where
  "Uint64 b =
     (if length b < 8 then None
      else Some (ucast (b ! 7) OR push_bit 8 (ucast (b ! 6)) OR push_bit 16 (ucast (b ! 5))
                 OR push_bit 24 (ucast (b ! 4)) OR push_bit 32 (ucast (b ! 3))
                 OR push_bit 40 (ucast (b ! 2)) OR push_bit 48 (ucast (b ! 1))
                 OR push_bit 56 (ucast (b ! 0))))"

text \<open>
  \<open>Time.UnixNano\<close> followed by the conversion to \<open>uint64\<close>: the nanosecond count
  in 64 bits. \<open>time.Unix(0, n)\<close> is the instant \<open>n\<close> nanoseconds after the epoch.
\<close>

definition UnixNano :: "Time \<Rightarrow> 64 word" where
  "UnixNano t = word_of_int t"


definition minDuration :: Duration where
  "minDuration = - (2 ^ 63)"

definition maxDuration :: Duration where
  "maxDuration = 2 ^ 63 - 1"


definition Millisecond :: Duration where
  "Millisecond = 1000000"

text \<open>
  \<open>Time.Sub\<close>: the difference of two instants, or the minimum or maximum duration
  when the difference does not fit in a \<open>Duration\<close>.
\<close>

definition Time_Sub :: "Time \<Rightarrow> Time \<Rightarrow> Duration" where
  "Time_Sub t u =
     (if minDuration \<le> t - u \<and> t - u \<le> maxDuration then t - u
      else if t < u then minDuration
      else maxDuration)"






subsection \<open>The prober\<close>

text \<open>
  The connection is the list of packets written to it, each with the next hop it was given,
  oldest first. \<open>errHandler\<close> is a nil-able function value.
\<close>

record PacketConn =
  written :: "(snet_Packet \<times> net_UDPAddr option) list"

record Pinger =
  errHandler :: "(ping_error \<Rightarrow> unit) option"
  id :: "64 word"
  conn :: PacketConn
  local :: snet_UDPAddr
  pld :: "byte list"

text \<open>
  \<open>NewPinger\<close>. The random number drawn and the result of \<open>svc.Register\<close> (an error, or
  the port the dispatcher assigned) are inputs. The result holds the prober, the handler
  registered with the connection, and the reply channel both share.
\<close>

definition NewPinger ::
  "64 word \<Rightarrow> string + 16 word \<Rightarrow> snet_UDPAddr \<Rightarrow> ping_error + Pinger \<times> scmpHandler \<times> Reply chan"
where
  "NewPinger rnd reg loc =
     (let replies = make_chan 10;
          h = \<lparr>h_id = ucast rnd\<rparr>
      in case reg of
           Inl e \<Rightarrow> Inl (ConnError e)
         | Inr port \<Rightarrow>
             Inr (\<lparr>errHandler = None, id = rnd, conn = \<lparr>written = []\<rparr>,
                   local = loc\<lparr>UA_Host := (UA_Host loc)\<lparr>Port := uint port\<rparr>\<rparr>,
                   pld = replicate 8 0\<rparr>,
                  h, replies))"

text \<open>\<open>pack\<close>: the echo request as a packet, or the no-path error.\<close>

definition pack :: "snet_UDPAddr \<Rightarrow> snet_UDPAddr \<Rightarrow> SCMPEchoRequest \<Rightarrow> ping_error + snet_Packet" where
  "pack loc remote req =
     (if IsEmpty (UA_Path remote) \<and> \<not> IA_Equal (UA_IA loc) (UA_IA remote)
      then Inl (NoPathForRemote (UA_IA loc) (UA_IA remote))
      else Inr \<lparr>Bytes = [],
                Destination = \<lparr>SA_IA = UA_IA remote, SA_Host = IP (UA_Host remote)\<rparr>,
                Source = \<lparr>SA_IA = UA_IA loc, SA_Host = IP (UA_Host loc)\<rparr>,
                Path = UA_Path remote,
                Pld = EchoRequestPld req\<rparr>)"

text \<open>
  \<open>PacketConn.WriteTo\<close>: the outcome of the underlying write is an input (\<open>None\<close>: it
  succeeded); a successful write is recorded.
\<close>

definition WriteTo ::
  "string option \<Rightarrow> PacketConn \<Rightarrow> snet_Packet \<Rightarrow> net_UDPAddr option \<Rightarrow> ping_error option \<times> PacketConn"
where
  "WriteTo wr c pkt nextHop =
     (case wr of
        Some e \<Rightarrow> (Some (ConnError e), c)
      | None \<Rightarrow> (None, c\<lparr>written := written c @ [(pkt, nextHop)]\<rparr>))"

text \<open>
  \<open>Pinger.Send\<close>. \<open>EndhostPort\<close> stands for the library constant
  \<open>underlay.EndhostPort\<close>, \<open>now\<close> for the clock reading. The result is the error
  returned and the prober afterwards.

  The first lines of \<open>Send\<close> prepare the payload buffer: \<open>payload_size\<close> is the
  size after the lower bound of eight, and \<open>stamp_payload\<close> is \<open>p.pld\<close> after the buffer
  was grown to that size if needed and the timestamp was written to its first eight bytes.
  The buffer is only ever made by \<open>make([]byte, n)\<close>, so its capacity is its length;
  \<open>p.pld[:size]\<close> shares its storage, so the timestamp stays in \<open>p.pld\<close>.
  \<open>PutUint64\<close> cannot panic here, the slice has at least eight bytes.
\<close>

definition payload_size :: "int \<Rightarrow> int" where
  "payload_size size0 = (if size0 < 8 then 8 else size0)"

definition stamp_payload :: "Pinger \<Rightarrow> Time \<Rightarrow> int \<Rightarrow> byte list" where
  "stamp_payload p now sz =
     (let pld1 = (if int (length (pld p)) < sz then replicate (nat sz) 0 else pld p)
      in case PutUint64 (take (nat sz) pld1) (UnixNano now) of
           None \<Rightarrow> pld1
         | Some b \<Rightarrow> b @ drop (nat sz) pld1)"

definition Send ::
  "int \<Rightarrow> Time \<Rightarrow> string option \<Rightarrow> Pinger \<Rightarrow> snet_UDPAddr \<Rightarrow> 16 word \<Rightarrow> int
     \<Rightarrow> ping_error option \<times> Pinger"
where
  "Send EndhostPort now wr p remote sequence size0 =
     (let sz = payload_size size0;
          p1 = p\<lparr>pld := stamp_payload p now sz\<rparr>
      in case pack (local p1) remote
                \<lparr>Req_Identifier = ucast (id p1), Req_SeqNumber = sequence,
                 Req_Payload = take (nat sz) (pld p1)\<rparr> of
           Inl e \<Rightarrow> (Some e, p1)
         | Inr pkt \<Rightarrow>
             (let nextHop =
                    (if UA_NextHop remote = None \<and> IA_Equal (UA_IA (local p1)) (UA_IA remote)
                     then Some \<lparr>IP = IP (UA_Host remote), Port = EndhostPort,
                                Zone = Zone (UA_Host remote)\<rparr>
                     else UA_NextHop remote)
              in case WriteTo wr (conn p1) pkt nextHop of
                   (err, c) \<Rightarrow> (err, p1\<lparr>conn := c\<rparr>)))"

text \<open>
  One round of the loop of \<open>Pinger.Drain\<close>, after \<open>ReadFrom\<close> returned \<open>rd\<close> (\<open>None\<close>:
  no error) at clock reading \<open>now\<close>. The state is the time of the last report and the
  errors handed to the hook so far. \<open>Drain\<close> runs the rounds that happen before the
  context is cancelled; the time of the last report starts as the zero \<open>time.Time\<close>, January 1 of year 1.
\<close>

definition zeroTime :: Time where
  "zeroTime = - 62135596800 * 1000000000"

definition Drain_round ::
  "Pinger \<Rightarrow> Time \<times> ping_error list \<Rightarrow> Time \<times> string option \<Rightarrow> Time \<times> ping_error list"
where
  "Drain_round p st ev =
     (case st of (lastRep, reported) \<Rightarrow>
      case ev of (now, rd) \<Rightarrow>
        (case rd of
           Some e \<Rightarrow>
             (if errHandler p \<noteq> None
              then (if Time_Sub now lastRep > 500 * Millisecond
                    then (now, reported @ [ConnError (''reading packet: '' @ e)])
                    else (lastRep, reported))
              else (lastRep, reported))
         | None \<Rightarrow> (lastRep, reported)))"

definition Drain :: "Pinger \<Rightarrow> (Time \<times> string option) list \<Rightarrow> ping_error list" where
  "Drain p evs = snd (foldl (Drain_round p) (zeroTime, []) evs)"

text \<open>A run of \<open>Send\<close> calls on one prober, each with its own inputs, in order.\<close>

fun Sends ::
  "int \<Rightarrow> Pinger \<Rightarrow> (Time \<times> string option \<times> snet_UDPAddr \<times> 16 word \<times> int) list \<Rightarrow> Pinger"
where
  "Sends EndhostPort p [] = p"
| "Sends EndhostPort p ((now, wr, remote, sequence, size0) # calls) =
     Sends EndhostPort (snd (Send EndhostPort now wr p remote sequence size0)) calls"


section \<open>The forwarder's ACL file: web-forwarder/main.go\<close>

text \<open>
  \<open>readACL\<close> reads a file and hands its bytes to \<open>json.Unmarshal\<close>. The file system
  and the JSON syntax belong to the standard library: what \<open>os.Open\<close> and
  \<open>ioutil.ReadAll\<close> give for a path is an input, and the content of a file is either
  text that is not JSON or a JSON document, given as its value.
\<close>

datatype json =
    JNull
  | JBool bool
  | JNumber int
  | JString string
  | JArray "json list"
  | JObject "(string \<times> json) list"


datatype acl_error = OpenError string | ReadError string | SyntaxError | UnmarshalTypeError

text \<open>
  \<open>pan.PathFingerprint\<close> is declared outside the sources at hand. Modelled from the spec:
  the ACL file holds arrays of fingerprint strings, so a fingerprint is a string. A slice
  is a list, or nil.
\<close>

type_synonym PathFingerprint = string









section \<open>The packet filter of pkg/pan\<close>

text \<open>
  Modelled from the spec: \<open>baseUDPConn.FilterPacket\<close> of pkg/pan is missing from the
  sources at hand, which hold only its benchmark in raw_test.go. The benchmark gives the
  shape: a connection with a field \<open>allowedPaths\<close> of type
  \<open>map[addr.IA][]PathFingerprint\<close>, and a call \<open>conn.FilterPacket(pkt, fprint)\<close>. The
  decision follows section 4.2 of the spec: an unset ACL accepts; an entry for the source
  domain of the packet accepts exactly the fingerprints it lists; no entry drops. The map is
  kept as the list of its entries, and an unset ACL is the nil map.
\<close>

record baseUDPConn =
  allowedPaths :: "(IA \<times> PathFingerprint list) list option"

definition FilterPacket :: "baseUDPConn \<Rightarrow> snet_Packet \<Rightarrow> PathFingerprint \<Rightarrow> bool" where
  "FilterPacket c pkt fprint =
     (case allowedPaths c of
        None \<Rightarrow> True
      | Some acl \<Rightarrow>
          (case map_of acl (SA_IA (Source pkt)) of
             None \<Rightarrow> False
           | Some fps \<Rightarrow> fprint \<in> set fps))"

section \<open>Address mangling and the dial path of pkg/shttp\<close>

text \<open>
  Modelled from the spec: \<open>MangleSCIONAddrURL\<close> (pkg/shttp), \<open>UnmangleSCIONAddr\<close> and
  \<open>ResolveUDPAddrAt\<close> (pkg/appnet) are missing from the sources at hand, which hold only
  their tests in transport_test.go. The definitions below follow sections 3, 4.3 and 4.4 of
  the spec, and agree with the tables of \<open>TestMangleSCIONAddrURL\<close> and
  \<open>TestRoundTripper\<close>. Where the spec calls on a standard, for the text of an IP
  address and for the syntax of a URL, they follow RFC 3986. Addresses are text; a port is
  kept as its digits.
\<close>

subsection \<open>Characters and tokens\<close>

definition is_digit :: "char \<Rightarrow> bool" where
  "is_digit c = (c \<in> set ''0123456789'')"

definition is_hex :: "char \<Rightarrow> bool" where
  "is_hex c = (c \<in> set ''0123456789abcdefABCDEF'')"

definition is_alpha :: "char \<Rightarrow> bool" where
  "is_alpha c = (c \<in> set ''abcdefghijklmnopqrstuvwxyzABCDEFGHIJKLMNOPQRSTUVWXYZ'')"

definition is_alnum :: "char \<Rightarrow> bool" where
  "is_alnum c = (is_alpha c \<or> is_digit c)"

text \<open>The pieces of a text between the occurrences of a separator.\<close>

fun split_on :: "char \<Rightarrow> string \<Rightarrow> string list" where
  "split_on c [] = [[]]"
| "split_on c (x # xs) =
     (if x = c then [] # split_on c xs
      else case split_on c xs of
             [] \<Rightarrow> [[x]]
           | p # ps \<Rightarrow> (x # p) # ps)"

definition is_decimal :: "string \<Rightarrow> bool" where
  "is_decimal s = (s \<noteq> [] \<and> list_all is_digit s)"

definition is_port :: "string \<Rightarrow> bool" where
  "is_port p = is_decimal p"

text \<open>
  An IPv4 address is four decimal octets between dots; an octet is a number from 0 to 255
  without leading zeros (\<open>dec-octet\<close> of RFC 3986).
\<close>

fun is_dec_octet :: "string \<Rightarrow> bool" where
  "is_dec_octet [a] = is_digit a"
| "is_dec_octet [a, b] = (is_digit a \<and> a \<noteq> CHR ''0'' \<and> is_digit b)"
| "is_dec_octet [a, b, c] =
     (is_digit b \<and> is_digit c \<and>
      (a = CHR ''1'' \<or>
       (a = CHR ''2'' \<and> (b \<in> set ''01234'' \<or> (b = CHR ''5'' \<and> c \<in> set ''012345'')))))"
| "is_dec_octet _ = False"

definition is_ip4 :: "string \<Rightarrow> bool" where
  "is_ip4 a = (length (split_on CHR ''.'' a) = 4 \<and> list_all is_dec_octet (split_on CHR ''.'' a))"

text \<open>
  An IPv6 address (\<open>IPv6address\<close> of RFC 3986) is eight groups of one to four hexadecimal
  digits between colons; the last two groups may be written as an IPv4 address; and one
  run of zero groups may be left out, written \<open>::\<close>. \<open>find_elision\<close> cuts the text at
  its first \<open>::\<close>; \<open>ip6_units\<close> counts the groups of a list of pieces, an IPv4 address
  at the end for two.
\<close>

definition is_h16 :: "string \<Rightarrow> bool" where
  "is_h16 g = (1 \<le> length g \<and> length g \<le> 4 \<and> list_all is_hex g)"

fun find_elision :: "string \<Rightarrow> (string \<times> string) option" where
  "find_elision (x # y # zs) =
     (if x = CHR '':'' \<and> y = CHR '':'' then Some ([], zs)
      else map_option (\<lambda>(l, r). (x # l, r)) (find_elision (y # zs)))"
| "find_elision _ = None"

definition pieces :: "string \<Rightarrow> string list" where
  "pieces s = (if s = [] then [] else split_on CHR '':'' s)"

definition ip6_units :: "string list \<Rightarrow> nat option" where
  "ip6_units gs =
     (if list_all is_h16 gs then Some (length gs)
      else if gs \<noteq> [] \<and> list_all is_h16 (butlast gs) \<and> is_ip4 (last gs)
      then Some (length gs + 1)
      else None)"

definition is_ip6 :: "string \<Rightarrow> bool" where
  "is_ip6 a =
     (case find_elision a of
        None \<Rightarrow> ip6_units (pieces a) = Some 8
      | Some (l, r) \<Rightarrow>
          list_all is_h16 (pieces l) \<and>
          (case ip6_units (pieces r) of
             None \<Rightarrow> False
           | Some n \<Rightarrow> length (pieces l) + n \<le> 7))"

definition is_ip :: "string \<Rightarrow> bool" where
  "is_ip a = (is_ip4 a \<or> is_ip6 a)"

text \<open>
  A domain identifier is \<open><isd>-<as>\<close>, two numbers: the first decimal, the second
  decimal or, as in \<open>1-ff00:0:110\<close>, three groups of hexadecimal digits between colons.
\<close>

definition is_as :: "string \<Rightarrow> bool" where
  "is_as s =
     (is_decimal s \<or>
      (length (split_on CHR '':'' s) = 3 \<and> list_all is_h16 (split_on CHR '':'' s)))"

definition is_domain :: "string \<Rightarrow> bool" where
  "is_domain d =
     (length (split_on CHR ''-'' d) = 2 \<and>
      is_decimal (hd (split_on CHR ''-'' d)) \<and> is_as (last (split_on CHR ''-'' d)))"

text \<open>A plain host name, or a plain IPv4 address: letters, digits, \<open>-\<close> and \<open>.\<close>.\<close>

definition is_hostname :: "string \<Rightarrow> bool" where
  "is_hostname h = (h \<noteq> [] \<and> list_all (\<lambda>c. is_alnum c \<or> c = CHR ''-'' \<or> c = CHR ''.'') h)"

subsection \<open>The text of a Structured Address\<close>

text \<open>
  The host part after the comma: \<open>[ip]\<close>, \<open>[ip]:port\<close>, \<open>ip:port\<close> when there is
  exactly one colon, and otherwise a bare address, with no colon or with the colons of an
  IPv6 address.
\<close>

definition parseHostPort :: "string \<Rightarrow> (string \<times> string option) option" where
  "parseHostPort r =
     (if take 1 r = ''[''
      then
        (let inner = takeWhile (\<lambda>c. c \<noteq> CHR '']'') (drop 1 r);
             after = dropWhile (\<lambda>c. c \<noteq> CHR '']'') (drop 1 r)
         in if \<not> is_ip inner then None
            else if after = '']'' then Some (inner, None)
            else if take 2 after = '']:'' \<and> is_port (drop 2 after)
                 then Some (inner, Some (drop 2 after))
            else None)
      else if length (filter (\<lambda>c. c = CHR '':'') r) = 1
      then
        (let ip = takeWhile (\<lambda>c. c \<noteq> CHR '':'') r;
             p = drop 1 (dropWhile (\<lambda>c. c \<noteq> CHR '':'') r)
         in if is_ip ip \<and> is_port p then Some (ip, Some p) else None)
      else if is_ip r then Some (r, None)
      else None)"

text \<open>The whole address: domain, comma, host part. \<open>None\<close>: not a Structured Address.\<close>

definition parseSCIONAddr :: "string \<Rightarrow> (string \<times> string \<times> string option) option" where
  "parseSCIONAddr s =
     (if CHR '','' \<notin> set s then None
      else
        let ia = takeWhile (\<lambda>c. c \<noteq> CHR '','') s;
            r = drop 1 (dropWhile (\<lambda>c. c \<noteq> CHR '','') s)
        in if \<not> is_domain ia then None
           else
             case parseHostPort r of
               None \<Rightarrow> None
             | Some (ip, port) \<Rightarrow> Some (ia, ip, port))"

subsection \<open>The parts of a URL\<close>

text \<open>
  A URL with a host is \<open>scheme://authority\<close> and a rest; the scheme starts with a letter
  and goes on with letters, digits, \<open>+\<close>, \<open>-\<close> and \<open>.\<close>; the authority ends at the first
  \<open>/\<close>, \<open>?\<close> or \<open>#\<close>, and is the host with its port, after the user-info and its \<open>@\<close>
  when there is one. A text that does not start with a scheme and \<open>://\<close> has no host.
  The parts are the scheme with \<open>://\<close>, the user-info with \<open>@\<close>, the host with its
  port, and the rest.
\<close>

definition is_scheme_char :: "char \<Rightarrow> bool" where
  "is_scheme_char c = (is_alnum c \<or> c = CHR ''+'' \<or> c = CHR ''-'' \<or> c = CHR ''.'')"

definition is_scheme :: "string \<Rightarrow> bool" where
  "is_scheme s = (s \<noteq> [] \<and> is_alpha (hd s) \<and> list_all is_scheme_char s)"

definition is_authority_char :: "char \<Rightarrow> bool" where
  "is_authority_char c = (c \<noteq> CHR ''/'' \<and> c \<noteq> CHR ''?'' \<and> c \<noteq> CHR ''#'')"

definition url_parts :: "string \<Rightarrow> string \<times> string \<times> string \<times> string" where
  "url_parts url =
     (let s = takeWhile is_scheme_char url;
          r = dropWhile is_scheme_char url
      in if is_scheme s \<and> take 3 r = ''://''
         then
           (let authority = takeWhile is_authority_char (drop 3 r);
                tail = dropWhile is_authority_char (drop 3 r);
                ui = rev (dropWhile (\<lambda>c. c \<noteq> CHR ''@'') (rev authority));
                host = rev (takeWhile (\<lambda>c. c \<noteq> CHR ''@'') (rev authority))
            in (s @ ''://'', ui, host, tail))
         else ([], [], [], url))"

definition url_Host :: "string \<Rightarrow> string" where
  "url_Host url = (case url_parts url of (pre, ui, host, tail) \<Rightarrow> host)"

subsection \<open>Mangle and Unmangle\<close>

definition port_suffix :: "string option \<Rightarrow> string" where
  "port_suffix port = (case port of None \<Rightarrow> [] | Some p \<Rightarrow> '':'' @ p)"

text \<open>
  The host of a URL: a Structured Address becomes \<open>[domain,host]\<close> with the port kept
  behind the bracket; any other host is left as it is.
\<close>

definition mangleSCIONAddr :: "string \<Rightarrow> string" where
  "mangleSCIONAddr host =
     (case parseSCIONAddr host of
        None \<Rightarrow> host
      | Some (ia, ip, port) \<Rightarrow> ''['' @ ia @ '','' @ ip @ '']'' @ port_suffix port)"

definition MangleSCIONAddrURL :: "string \<Rightarrow> string" where
  "MangleSCIONAddrURL url =
     (case url_parts url of
        (pre, ui, host, tail) \<Rightarrow> pre @ ui @ mangleSCIONAddr host @ tail)"

text \<open>
  \<open>UnmangleSCIONAddr\<close>: a bracketed \<open>[domain,host]\<close>, with or without \<open>:port\<close> behind
  it, goes back to the comma form, the host in brackets of its own when it has colons;
  any other text is left as it is.
\<close>

definition UnmangleSCIONAddr :: "string \<Rightarrow> string" where
  "UnmangleSCIONAddr address =
     (if take 1 address = ''[''
      then
        (let inner = takeWhile (\<lambda>c. c \<noteq> CHR '']'') (drop 1 address);
             after = dropWhile (\<lambda>c. c \<noteq> CHR '']'') (drop 1 address);
             port = drop 1 after;
             ia = takeWhile (\<lambda>c. c \<noteq> CHR '','') inner;
             ip = drop 1 (dropWhile (\<lambda>c. c \<noteq> CHR '','') inner)
         in if after \<noteq> [] \<and> (port = [] \<or> (take 1 port = '':'' \<and> is_port (drop 1 port))) \<and>
               CHR '','' \<in> set inner \<and> is_domain ia \<and> is_ip ip
            then ia @ '','' @ (if CHR '':'' \<in> set ip then ''['' @ ip @ '']'' else ip) @ port
            else address)
      else address)"

subsection \<open>The host of a URL by the standard\<close>







subsection \<open>The dial path\<close>

text \<open>
  The HTTP transport adds the default port of the scheme, 443, when the host of the URL
  has none; a host has a port when a colon follows its closing bracket, or, without
  brackets, when it has a colon.
\<close>

definition has_port :: "string \<Rightarrow> bool" where
  "has_port host =
     (if take 1 host = ''[''
      then take 2 (dropWhile (\<lambda>c. c \<noteq> CHR '']'') host) = '']:''
      else CHR '':'' \<in> set host)"

definition canonicalAddr :: "string \<Rightarrow> string" where
  "canonicalAddr host = (if has_port host then host else host @ '':443'')"

datatype resolve_error = HostNotFound string | MissingPort string

record UDPAddr =
  ua_IA :: string
  ua_IP :: string
  ua_Port :: string

text \<open>
  \<open>ResolveUDPAddrAt\<close>: a Structured Address is used as it is (port 0 when it has none);
  otherwise the text is split at its last colon into name and port, and the name goes to
  the resolver, a table from names to domain and address.
\<close>

definition ResolveUDPAddrAt ::
  "string \<Rightarrow> (string \<rightharpoonup> string \<times> string) \<Rightarrow> resolve_error + UDPAddr"
where
  "ResolveUDPAddrAt address resolver =
     (case parseSCIONAddr address of
        Some (ia, ip, port) \<Rightarrow>
          Inr \<lparr>ua_IA = ia, ua_IP = ip, ua_Port = (case port of None \<Rightarrow> ''0'' | Some p \<Rightarrow> p)\<rparr>
      | None \<Rightarrow>
          (let name = rev (drop 1 (dropWhile (\<lambda>c. c \<noteq> CHR '':'') (rev address)));
               port = rev (takeWhile (\<lambda>c. c \<noteq> CHR '':'') (rev address))
           in if CHR '':'' \<notin> set address \<or> \<not> is_port port then Inl (MissingPort address)
              else
                case resolver name of
                  None \<Rightarrow> Inl (HostNotFound name)
                | Some (ia, ip) \<Rightarrow> Inr \<lparr>ua_IA = ia, ua_IP = ip, ua_Port = port\<rparr>))"

text \<open>\<open>UDPAddr.String\<close>: \<open>domain,host:port\<close>, the host in brackets when it has colons.\<close>

definition UDPAddr_String :: "UDPAddr \<Rightarrow> string" where
  "UDPAddr_String a =
     ua_IA a @ '','' @
     (if CHR '':'' \<in> set (ua_IP a) then ''['' @ ua_IP a @ '']'' else ua_IP a) @
     '':'' @ ua_Port a"

text \<open>
  The address that reaches the dial function for a URL, unmangled and resolved, as the
  stub of \<open>TestRoundTripper\<close> computes it.
\<close>

definition dialed_address ::
  "(string \<rightharpoonup> string \<times> string) \<Rightarrow> string \<Rightarrow> resolve_error + string"
where
  "dialed_address resolver url =
     (case ResolveUDPAddrAt
             (UnmangleSCIONAddr (canonicalAddr (url_Host (MangleSCIONAddrURL url)))) resolver of
        Inl err \<Rightarrow> Inl err
      | Inr a \<Rightarrow> Inr (UDPAddr_String a))"

subsection \<open>The legal text forms\<close>

text \<open>
  The seven forms the spec lists, each with its parts, the text it stands for, and what the
  spec says of it: the mangled host, and the address dialed.
\<close>

datatype addr_form =
    Host string
  | HostPort string string
  | IPv4 string string
  | IPv4Port string string string
  | IPv6 string string
  | IPv6Bracket string string
  | IPv6BracketPort string string string

fun form_text :: "addr_form \<Rightarrow> string" where
  "form_text (Host h) = h"
| "form_text (HostPort h p) = h @ '':'' @ p"
| "form_text (IPv4 d a) = d @ '','' @ a"
| "form_text (IPv4Port d a p) = d @ '','' @ a @ '':'' @ p"
| "form_text (IPv6 d a) = d @ '','' @ a"
| "form_text (IPv6Bracket d a) = d @ '','' @ ''['' @ a @ '']''"
| "form_text (IPv6BracketPort d a p) = d @ '','' @ ''['' @ a @ '']'' @ '':'' @ p"

fun legal :: "addr_form \<Rightarrow> bool" where
  "legal (Host h) = is_hostname h"
| "legal (HostPort h p) = (is_hostname h \<and> is_port p)"
| "legal (IPv4 d a) = (is_domain d \<and> is_ip4 a)"
| "legal (IPv4Port d a p) = (is_domain d \<and> is_ip4 a \<and> is_port p)"
| "legal (IPv6 d a) = (is_domain d \<and> is_ip6 a)"
| "legal (IPv6Bracket d a) = (is_domain d \<and> is_ip6 a)"
| "legal (IPv6BracketPort d a p) = (is_domain d \<and> is_ip6 a \<and> is_port p)"


fun mangled_text :: "addr_form \<Rightarrow> string" where
  "mangled_text (Host h) = h"
| "mangled_text (HostPort h p) = h @ '':'' @ p"
| "mangled_text (IPv4 d a) = ''['' @ d @ '','' @ a @ '']''"
| "mangled_text (IPv4Port d a p) = ''['' @ d @ '','' @ a @ '']'' @ '':'' @ p"
| "mangled_text (IPv6 d a) = ''['' @ d @ '','' @ a @ '']''"
| "mangled_text (IPv6Bracket d a) = ''['' @ d @ '','' @ a @ '']''"
| "mangled_text (IPv6BracketPort d a p) = ''['' @ d @ '','' @ a @ '']'' @ '':'' @ p"


fun dial_text :: "(string \<rightharpoonup> string \<times> string) \<Rightarrow> addr_form \<Rightarrow> resolve_error + string" where
  "dial_text resolver (Host h) =
     (case resolver h of
        None \<Rightarrow> Inl (HostNotFound h)
      | Some (ia, ip) \<Rightarrow>
          Inr (UDPAddr_String \<lparr>ua_IA = ia, ua_IP = ip, ua_Port = ''443''\<rparr>))"
| "dial_text resolver (HostPort h p) =
     (case resolver h of
        None \<Rightarrow> Inl (HostNotFound h)
      | Some (ia, ip) \<Rightarrow>
          Inr (UDPAddr_String \<lparr>ua_IA = ia, ua_IP = ip, ua_Port = p\<rparr>))"
| "dial_text resolver (IPv4 d a) = Inr (d @ '','' @ a @ '':443'')"
| "dial_text resolver (IPv4Port d a p) = Inr (d @ '','' @ a @ '':'' @ p)"
| "dial_text resolver (IPv6 d a) = Inr (d @ '','' @ ''['' @ a @ '']'' @ '':443'')"
| "dial_text resolver (IPv6Bracket d a) = Inr (d @ '','' @ ''['' @ a @ '']'' @ '':443'')"
| "dial_text resolver (IPv6BracketPort d a p) = Inr (d @ '','' @ ''['' @ a @ '']'' @ '':'' @ p)"

text \<open>The resolver table of transport_test.go.\<close>

definition testResolver :: "string \<rightharpoonup> string \<times> string" where
  "testResolver name = (if name = ''host'' then Some (''1-ff00:0:1'', ''192.0.2.1'') else None)"

subsection \<open>Example data\<close>

definition ia110 :: IA where
  "ia110 = \<lparr>I = 1, A = 0xff0000000110\<rparr>"

definition ia112 :: IA where
  "ia112 = \<lparr>I = 1, A = 0xff0000000112\<rparr>"

definition noPath :: spath_Path where
  "noPath = \<lparr>Raw = [], Type = 0\<rparr>"

definition somePath :: spath_Path where
  "somePath = \<lparr>Raw = [1, 2, 3, 4], Type = 1\<rparr>"

definition localAddr :: snet_UDPAddr where
  "localAddr = \<lparr>UA_IA = ia110, UA_Path = noPath, UA_NextHop = None,
                 UA_Host = \<lparr>IP = [127, 0, 0, 1], Port = 0, Zone = []\<rparr>\<rparr>"

definition hopAddr :: net_UDPAddr where
  "hopAddr = \<lparr>IP = [10, 0, 0, 1], Port = 31000, Zone = []\<rparr>"

definition remoteAddr :: "IA \<Rightarrow> spath_Path \<Rightarrow> net_UDPAddr option \<Rightarrow> snet_UDPAddr" where
  "remoteAddr ia path hop =
     \<lparr>UA_IA = ia, UA_Path = path, UA_NextHop = hop,
      UA_Host = \<lparr>IP = [127, 0, 0, 2], Port = 1234, Zone = []\<rparr>\<rparr>"

definition examplePinger :: Pinger where
  "examplePinger =
     \<lparr>errHandler = None, id = 0x10007, conn = \<lparr>written = []\<rparr>,
      local = localAddr\<lparr>UA_Host := (UA_Host localAddr)\<lparr>Port := 30100\<rparr>\<rparr>,
      pld = replicate 8 0\<rparr>"

definition echoReplyPacket :: "16 word \<Rightarrow> byte list \<Rightarrow> snet_Packet" where
  "echoReplyPacket ident payload =
     \<lparr>Bytes = replicate 60 0,
      Destination = \<lparr>SA_IA = ia110, SA_Host = [127, 0, 0, 1]\<rparr>,
      Source = \<lparr>SA_IA = ia112, SA_Host = [127, 0, 0, 2]\<rparr>,
      Path = somePath,
      Pld = EchoReplyPld \<lparr>Identifier = ident, SeqNumber = 3, Payload = payload\<rparr>\<rparr>"

definition replyAt :: "Time \<Rightarrow> byte list \<Rightarrow> Reply" where
  "replyAt t payload =
     \<lparr>Received = t, R_Source = \<lparr>SA_IA = ia112, SA_Host = [127, 0, 0, 2]\<rparr>,
      R_Path = somePath, Size = 60,
      R_Reply = \<lparr>Identifier = 7, SeqNumber = 3, Payload = payload\<rparr>, Error = None\<rparr>"


text \<open>
  The connection of the spec's example, \<open>{domainA: [fp1, fp2]}\<close>, one without an ACL, and
  a packet from a given domain.
\<close>

definition aclConn :: baseUDPConn where
  "aclConn = \<lparr>allowedPaths = Some [(ia112, [''fp1'', ''fp2''])]\<rparr>"

definition openConn :: baseUDPConn where
  "openConn = \<lparr>allowedPaths = None\<rparr>"

definition packetFrom :: "IA \<Rightarrow> snet_Packet" where
  "packetFrom ia =
     \<lparr>Bytes = [], Destination = \<lparr>SA_IA = ia110, SA_Host = [127, 0, 0, 1]\<rparr>,
      Source = \<lparr>SA_IA = ia, SA_Host = [127, 0, 0, 2]\<rparr>, Path = somePath, Pld = NilPayload\<rparr>"

section \<open>Properties of the echo prober\<close>

subsection \<open>Helper lemmas\<close>

lemma byte_of_word: "(ucast (ucast (w :: 64 word) :: byte) :: 64 word) = take_bit 8 w"
  by (rule bit_word_eqI) (auto simp: bit_simps)

lemma take_bit_split8:
  "take_bit (k + 8) (w :: 64 word) = take_bit 8 w OR push_bit 8 (take_bit k (drop_bit 8 w))"
  by (rule bit_word_eqI) (auto simp: bit_simps)

lemma word64_bytes:
  "(v :: 64 word) =
     take_bit 8 v OR push_bit 8 (take_bit 8 (drop_bit 8 v))
       OR push_bit 16 (take_bit 8 (drop_bit 16 v))
       OR push_bit 24 (take_bit 8 (drop_bit 24 v)) OR push_bit 32 (take_bit 8 (drop_bit 32 v))
       OR push_bit 40 (take_bit 8 (drop_bit 40 v)) OR push_bit 48 (take_bit 8 (drop_bit 48 v))
       OR push_bit 56 (take_bit 8 (drop_bit 56 v))"
proof -
  have "v = take_bit (56 + 8) v"
    using take_bit_length_eq [of v] by simp
  also have "\<dots> = take_bit 8 v OR push_bit 8 (take_bit 56 (drop_bit 8 v))"
    by (rule take_bit_split8)
  finally have s0: "v = take_bit 8 v OR push_bit 8 (take_bit 56 (drop_bit 8 v))" .
  have s: "take_bit (k + 8) (drop_bit m v) =
             take_bit 8 (drop_bit m v) OR push_bit 8 (take_bit k (drop_bit (m + 8) v))" for k m
    using take_bit_split8 [of k "drop_bit m v"] by (simp add: drop_bit_drop_bit add.commute)
  have s1: "take_bit 56 (drop_bit 8 v) =
              take_bit 8 (drop_bit 8 v) OR push_bit 8 (take_bit 48 (drop_bit 16 v))"
    using s [of 48 8] by simp
  have s2: "take_bit 48 (drop_bit 16 v) =
              take_bit 8 (drop_bit 16 v) OR push_bit 8 (take_bit 40 (drop_bit 24 v))"
    using s [of 40 16] by simp
  have s3: "take_bit 40 (drop_bit 24 v) =
              take_bit 8 (drop_bit 24 v) OR push_bit 8 (take_bit 32 (drop_bit 32 v))"
    using s [of 32 24] by simp
  have s4: "take_bit 32 (drop_bit 32 v) =
              take_bit 8 (drop_bit 32 v) OR push_bit 8 (take_bit 24 (drop_bit 40 v))"
    using s [of 24 32] by simp
  have s5: "take_bit 24 (drop_bit 40 v) =
              take_bit 8 (drop_bit 40 v) OR push_bit 8 (take_bit 16 (drop_bit 48 v))"
    using s [of 16 40] by simp
  have s6: "take_bit 16 (drop_bit 48 v) =
              take_bit 8 (drop_bit 48 v) OR push_bit 8 (take_bit 8 (drop_bit 56 v))"
    using s [of 8 48] by simp
  show ?thesis
    apply (subst s0)
    apply (subst s1)
    apply (subst s2)
    apply (subst s3)
    apply (subst s4)
    apply (subst s5)
    apply (subst s6)
    apply (simp add: push_bit_or push_bit_push_bit ac_simps del: take_bit_or)
    done
qed

lemma Uint64_PutUint64:
  assumes "PutUint64 b v = Some b'"
  shows "Uint64 b' = Some v"
proof -
  from assms have b': "b' = [ucast (drop_bit 56 v), ucast (drop_bit 48 v), ucast (drop_bit 40 v),
                  ucast (drop_bit 32 v), ucast (drop_bit 24 v), ucast (drop_bit 16 v),
                  ucast (drop_bit 8 v), ucast v] @ drop 8 b"
    by (auto simp: PutUint64_def split: if_splits)
  have "Uint64 b' =
          Some (take_bit 8 v OR push_bit 8 (take_bit 8 (drop_bit 8 v))
            OR push_bit 16 (take_bit 8 (drop_bit 16 v))
            OR push_bit 24 (take_bit 8 (drop_bit 24 v)) OR push_bit 32 (take_bit 8 (drop_bit 32 v))
            OR push_bit 40 (take_bit 8 (drop_bit 40 v)) OR push_bit 48 (take_bit 8 (drop_bit 48 v))
            OR push_bit 56 (take_bit 8 (drop_bit 56 v)))"
    unfolding b' by (simp add: Uint64_def byte_of_word)
  then show ?thesis
    by (subst word64_bytes [of v])
qed









lemma Handle_room:
  "length (buf c) < cap c \<Longrightarrow>
     Handle h now pkt c = Returned (c\<lparr>buf := buf c @ [mkReply h now pkt]\<rparr>) None"
  by (simp add: Handle_def chan_send_def)

lemma Handle_full: "cap c \<le> length (buf c) \<Longrightarrow> Handle h now pkt c = Blocked"
  by (simp add: Handle_def chan_send_def)

lemma Handle_Returned:
  "Handle h now pkt c = Returned c' e \<Longrightarrow>
     e = None \<and> length (buf c) < cap c \<and> c' = c\<lparr>buf := buf c @ [mkReply h now pkt]\<rparr>"
  by (auto simp: Handle_def chan_send_def split: if_splits)

lemma NewPinger_Inr:
  "NewPinger rnd reg loc = Inr (p, h, c) \<Longrightarrow>
     h_id h = ucast rnd \<and> id p = rnd \<and> errHandler p = None \<and> written (conn p) = [] \<and>
     buf c = [] \<and> cap c = 10"
  by (auto simp: NewPinger_def make_chan_def Let_def split: sum.splits)

lemma handle_accepts:
  "snd (handle h pkt) = None \<longleftrightarrow> (\<exists>r. Pld pkt = EchoReplyPld r \<and> Identifier r = h_id h)"
  by (auto simp: handle_def split: snet_Payload.splits)

lemma handle_accepted_reply:
  "snd (handle h pkt) = None \<Longrightarrow> Pld pkt = EchoReplyPld (fst (handle h pkt))"
  by (auto simp: handle_def split: snet_Payload.splits if_splits)

lemma handle_wrong_id:
  "Pld pkt = EchoReplyPld r \<Longrightarrow> Identifier r \<noteq> h_id h \<Longrightarrow>
     handle h pkt = (emptyEchoReply, Some (WrongSCMPID (h_id h) (Identifier r)))"
  by (simp add: handle_def)

lemma Drain_round_no_hook:
  "errHandler p = None \<Longrightarrow> snd st = [] \<Longrightarrow> snd (Drain_round p st ev) = []"
  by (auto simp: Drain_round_def split: prod.splits option.splits)

lemma foldl_Drain_no_hook:
  "errHandler p = None \<Longrightarrow> snd st = [] \<Longrightarrow> snd (foldl (Drain_round p) st evs) = []"
  by (induction evs arbitrary: st) (simp_all add: Drain_round_no_hook)

lemma Drain_no_hook: "errHandler p = None \<Longrightarrow> Drain p evs = []"
  by (simp add: Drain_def foldl_Drain_no_hook)

lemma Send_keeps:
  "id (snd (Send ep now wr p remote sq sz)) = id p \<and>
   local (snd (Send ep now wr p remote sq sz)) = local p \<and>
   errHandler (snd (Send ep now wr p remote sq sz)) = errHandler p"
  by (cases wr) (simp_all add: Send_def Let_def pack_def WriteTo_def)

lemma Send_no_path:
  "IsEmpty (UA_Path remote) \<Longrightarrow> \<not> IA_Equal (UA_IA (local p)) (UA_IA remote) \<Longrightarrow>
     fst (Send ep now wr p remote sq sz) = Some (NoPathForRemote (UA_IA (local p)) (UA_IA remote)) \<and>
     conn (snd (Send ep now wr p remote sq sz)) = conn p"
  by (simp add: Send_def Let_def pack_def)

lemma Send_writes:
  assumes "\<not> (IsEmpty (UA_Path remote) \<and> \<not> IA_Equal (UA_IA (local p)) (UA_IA remote))"
  shows "fst (Send ep now None p remote sq sz) = None \<and>
     (\<exists>pkt q. written (conn (snd (Send ep now None p remote sq sz))) =
          written (conn p) @
            [(pkt, if UA_NextHop remote = None \<and> IA_Equal (UA_IA (local p)) (UA_IA remote)
                   then Some \<lparr>IP = IP (UA_Host remote), Port = ep, Zone = Zone (UA_Host remote)\<rparr>
                   else UA_NextHop remote)] \<and>
        Pld pkt = EchoRequestPld q \<and> Req_Identifier q = ucast (id p) \<and> Req_SeqNumber q = sq \<and>
        Path pkt = UA_Path remote \<and> SA_IA (Destination pkt) = UA_IA remote)"
  using assms by (simp add: Send_def Let_def pack_def WriteTo_def)

lemma Send_written_cases:
  "written (conn (snd (Send ep now wr p remote sq sz))) = written (conn p) \<or>
   (\<exists>pkt nh q. written (conn (snd (Send ep now wr p remote sq sz))) = written (conn p) @ [(pkt, nh)] \<and>
       Pld pkt = EchoRequestPld q \<and> Req_Identifier q = ucast (id p))"
  by (cases wr) (auto simp: Send_def Let_def pack_def WriteTo_def)

lemma Sends_identifier:
  assumes "\<forall>(pkt, nh) \<in> set (written (conn p)).
             \<exists>q. Pld pkt = EchoRequestPld q \<and> Req_Identifier q = ucast (id p)"
  shows "id (Sends ep p calls) = id p \<and>
     (\<forall>(pkt, nh) \<in> set (written (conn (Sends ep p calls))).
        \<exists>q. Pld pkt = EchoRequestPld q \<and> Req_Identifier q = ucast (id p))"
  using assms
proof (induction calls arbitrary: p)
  case Nil
  then show ?case by simp
next
  case (Cons call calls)
  obtain now wr remote sq sz where call: "call = (now, wr, remote, sq, sz)"
    by (cases call) auto
  let ?p' = "snd (Send ep now wr p remote sq sz)"
  have idp: "id ?p' = id p" by (simp add: Send_keeps)
  have "\<forall>(pkt, nh) \<in> set (written (conn ?p')).
          \<exists>q. Pld pkt = EchoRequestPld q \<and> Req_Identifier q = ucast (id ?p')"
    using Send_written_cases [of ep now wr p remote sq sz] Cons.prems idp by fastforce
  from Cons.IH [OF this] show ?case
    by (simp add: call idp)
qed

lemma ucast_low16:
  "take_bit 16 a = take_bit 16 (b :: 64 word) \<Longrightarrow> (ucast a :: 16 word) = ucast b"
proof (rule bit_word_eqI)
  fix n
  assume eq: "take_bit 16 a = take_bit 16 b" and n: "n < LENGTH(16)"
  have "bit (take_bit 16 a) n = bit (take_bit 16 b) n"
    by (simp only: eq)
  then show "bit (ucast a :: 16 word) n \<longleftrightarrow> bit (ucast b :: 16 word) n"
    using n by (simp add: bit_simps)
qed

lemma PutUint64_Some:
  "8 \<le> length b \<Longrightarrow> \<exists>b'. PutUint64 b v = Some b' \<and> length b' = length b"
  by (simp add: PutUint64_def)

lemma stamp_payload_Uint64:
  assumes "8 \<le> sz"
  shows "Uint64 (take (nat sz) (stamp_payload p now sz)) = Some (UnixNano now)"
proof -
  define pld1 where "pld1 = (if int (length (pld p)) < sz then replicate (nat sz) 0 else pld p)"
  have len: "nat sz \<le> length pld1"
    by (auto simp: pld1_def)
  then have "8 \<le> length (take (nat sz) pld1)"
    using assms by simp
  from PutUint64_Some [OF this, of "UnixNano now"]
  obtain b where b: "PutUint64 (take (nat sz) pld1) (UnixNano now) = Some b"
    and lb: "length b = length (take (nat sz) pld1)"
    by blast
  have "stamp_payload p now sz = b @ drop (nat sz) pld1"
    unfolding stamp_payload_def pld1_def [symmetric] by (simp add: b)
  moreover have "length b = nat sz"
    using lb len by simp
  ultimately have "take (nat sz) (stamp_payload p now sz) = b"
    by simp
  then show ?thesis
    using Uint64_PutUint64 [OF b] by simp
qed

subsection \<open>Claims about the echo prober\<close>

text \<open>
  Claim C9. For every inbound packet handed to the handler, whatever its classification,
  \<open>Handle\<close> sends exactly one \<open>Reply\<close> on the reply channel and returns nil: with
  room in the channel it returns after appending one reply built from the packet and from
  the result of \<open>handle\<close>; on a full channel the send blocks and nothing is dropped; and
  whenever it returns, the error is nil and the channel holds one more reply. The channel
  made by \<open>NewPinger\<close> is empty and has capacity 10.
\<close>

theorem Handle_delivers_every_packet:
  "(NewPinger rnd reg loc = Inr (p, h0, c0) \<longrightarrow> buf c0 = [] \<and> cap c0 = 10) \<and>
   (length (buf c) < cap c \<longrightarrow>
      (\<exists>r. Handle h now pkt c = Returned (c\<lparr>buf := buf c @ [r]\<rparr>) None \<and>
           Received r = now \<and> R_Source r = Source pkt \<and> R_Path r = Path pkt \<and>
           Size r = int (length (Bytes pkt)) \<and> (R_Reply r, Error r) = handle h pkt)) \<and>
   (cap cf \<le> length (buf cf) \<longrightarrow> Handle h now pkt cf = Blocked) \<and>
   (Handle h now pkt c1 = Returned c2 e \<longrightarrow> e = None \<and> length (buf c2) = Suc (length (buf c1)))"
proof (intro conjI impI)
  assume "NewPinger rnd reg loc = Inr (p, h0, c0)"
  then show "buf c0 = []" and "cap c0 = 10"
    by (simp_all add: NewPinger_Inr)
next
  assume "length (buf c) < cap c"
  then have "Handle h now pkt c = Returned (c\<lparr>buf := buf c @ [mkReply h now pkt]\<rparr>) None"
    by (rule Handle_room)
  then show "\<exists>r. Handle h now pkt c = Returned (c\<lparr>buf := buf c @ [r]\<rparr>) None \<and>
           Received r = now \<and> R_Source r = Source pkt \<and> R_Path r = Path pkt \<and>
           Size r = int (length (Bytes pkt)) \<and> (R_Reply r, Error r) = handle h pkt"
    by (intro exI [of _ "mkReply h now pkt"]) (simp add: mkReply_def)
next
  assume "cap cf \<le> length (buf cf)"
  then show "Handle h now pkt cf = Blocked"
    by (rule Handle_full)
next
  assume r: "Handle h now pkt c1 = Returned c2 e"
  from Handle_Returned [OF r] show "e = None" and "length (buf c2) = Suc (length (buf c1))"
    by simp_all
qed

text \<open>
  The theorem at a concrete prober, at a wrong-identifier echo reply, at the empty channel
  of capacity 10 and at a full one.
\<close>

theorem Handle_delivers_every_packet_witness:
  "NewPinger 0x10007 (Inr 30100) localAddr = Inr (examplePinger, \<lparr>h_id = 7\<rparr>, make_chan 10) \<and>
   buf (make_chan 10 :: Reply chan) = [] \<and> cap (make_chan 10 :: Reply chan) = 10 \<and>
   Handle \<lparr>h_id = 7\<rparr> 1000 (echoReplyPacket 9 []) (make_chan 10) =
     Returned \<lparr>buf = [\<lparr>Received = 1000, R_Source = \<lparr>SA_IA = ia112, SA_Host = [127, 0, 0, 2]\<rparr>,
                         R_Path = somePath, Size = 60, R_Reply = emptyEchoReply,
                         Error = Some (WrongSCMPID 7 9)\<rparr>], cap = 10\<rparr> None \<and>
   Handle \<lparr>h_id = 7\<rparr> 1000 (echoReplyPacket 9 [])
     \<lparr>buf = replicate 10 (replyAt 5 []), cap = 10\<rparr> = Blocked"
proof -
  have n: "NewPinger 0x10007 (Inr 30100) localAddr = Inr (examplePinger, \<lparr>h_id = 7\<rparr>, make_chan 10)"
    by (simp add: NewPinger_def examplePinger_def localAddr_def Let_def)
  have room: "length (buf (make_chan 10 :: Reply chan)) < cap (make_chan 10 :: Reply chan)"
    by (simp add: make_chan_def)
  have full: "cap \<lparr>buf = replicate 10 (replyAt 5 []), cap = 10\<rparr>
                \<le> length (buf \<lparr>buf = replicate 10 (replyAt 5 []), cap = 10\<rparr>)"
    by simp
  have ret: "Handle \<lparr>h_id = 7\<rparr> 1000 (echoReplyPacket 9 []) (make_chan 10) =
     Returned \<lparr>buf = [\<lparr>Received = 1000, R_Source = \<lparr>SA_IA = ia112, SA_Host = [127, 0, 0, 2]\<rparr>,
                         R_Path = somePath, Size = 60, R_Reply = emptyEchoReply,
                         Error = Some (WrongSCMPID 7 9)\<rparr>], cap = 10\<rparr> None"
    by (simp add: Handle_def chan_send_def make_chan_def mkReply_def handle_def echoReplyPacket_def)
  show ?thesis
    using n room full ret
      Handle_delivers_every_packet [of "0x10007" "Inr 30100" localAddr examplePinger "\<lparr>h_id = 7\<rparr>"
        "make_chan 10" "make_chan 10" "\<lparr>h_id = 7\<rparr>" 1000 "echoReplyPacket 9 []"
        "\<lparr>buf = replicate 10 (replyAt 5 []), cap = 10\<rparr>" "make_chan 10"
        "\<lparr>buf = [\<lparr>Received = 1000, R_Source = \<lparr>SA_IA = ia112, SA_Host = [127, 0, 0, 2]\<rparr>,
                         R_Path = somePath, Size = 60, R_Reply = emptyEchoReply,
                         Error = Some (WrongSCMPID 7 9)\<rparr>], cap = 10\<rparr>" None]
    by simp
qed

text \<open>
  Claim C10. \<open>NewPinger\<close> draws a 64-bit identifier, and only its low 16 bits are used:
  the handler it registers matches \<open>uint16(id)\<close>; every echo request that any run of
  \<open>Send\<close> calls writes carries that same 16-bit identifier; the handler accepts a packet
  exactly when it is an echo reply with that identifier; and two draws that agree on their
  low 16 bits give the same handler identifier, so the identifier space that tells
  probers apart has 16 bits.
\<close>

theorem probe_identifier_is_low_16_bits:
  assumes "NewPinger rnd reg loc = Inr (p, h, c)"
  shows "h_id h = ucast rnd \<and>
    (\<forall>(pkt, nh) \<in> set (written (conn (Sends ep p calls))).
       \<exists>q. Pld pkt = EchoRequestPld q \<and> Req_Identifier q = h_id h) \<and>
    (snd (handle h pkt) = None \<longleftrightarrow> (\<exists>r. Pld pkt = EchoReplyPld r \<and> Identifier r = ucast rnd)) \<and>
    (take_bit 16 rnd' = take_bit 16 rnd \<and> NewPinger rnd' reg' loc' = Inr (p', h', c')
       \<longrightarrow> h_id h' = h_id h)"
proof -
  from NewPinger_Inr [OF assms]
  have hid: "h_id h = ucast rnd" and pid: "id p = rnd" and w: "written (conn p) = []"
    by simp_all
  have "\<forall>(pkt, nh) \<in> set (written (conn p)).
          \<exists>q. Pld pkt = EchoRequestPld q \<and> Req_Identifier q = ucast (id p)"
    by (simp add: w)
  from Sends_identifier [OF this, of ep calls]
  have sent: "\<forall>(pkt, nh) \<in> set (written (conn (Sends ep p calls))).
       \<exists>q. Pld pkt = EchoRequestPld q \<and> Req_Identifier q = h_id h"
    by (simp add: hid pid)
  have acc: "snd (handle h pkt) = None \<longleftrightarrow> (\<exists>r. Pld pkt = EchoReplyPld r \<and> Identifier r = ucast rnd)"
    by (simp add: handle_accepts hid)
  have low: "h_id h' = h_id h"
    if "take_bit 16 rnd' = take_bit 16 rnd" and "NewPinger rnd' reg' loc' = Inr (p', h', c')"
    using NewPinger_Inr [OF that(2)] ucast_low16 [OF that(1)] hid by simp
  show ?thesis
    using hid sent acc low by blast
qed

text \<open>
  The theorem at the draw \<open>0x10007\<close>: two probes are written with identifier 7, a reply
  with identifier 7 is accepted and one with 9 is not, and the different draw \<open>7\<close>
  gives the same handler.
\<close>

theorem probe_identifier_is_low_16_bits_witness:
  "NewPinger 0x10007 (Inr 30100) localAddr = Inr (examplePinger, \<lparr>h_id = 7\<rparr>, make_chan 10) \<and>
   map (\<lambda>(pkt, nh). case Pld pkt of EchoRequestPld q \<Rightarrow> Some (Req_Identifier q) | _ \<Rightarrow> None)
     (written (conn (Sends 30041 examplePinger
        [(1790000000000000000, None, remoteAddr ia110 noPath None, 1, 0),
         (1790000001000000000, None, remoteAddr ia112 somePath (Some hopAddr), 2, 16)]))) =
     [Some 7, Some 7] \<and>
   snd (handle \<lparr>h_id = 7\<rparr> (echoReplyPacket 7 [])) = None \<and>
   snd (handle \<lparr>h_id = 7\<rparr> (echoReplyPacket 9 [])) \<noteq> None \<and>
   NewPinger 7 (Inr 30200) localAddr =
     Inr (examplePinger\<lparr>id := 7, local := localAddr\<lparr>UA_Host := (UA_Host localAddr)\<lparr>Port := 30200\<rparr>\<rparr>\<rparr>,
          \<lparr>h_id = 7\<rparr>, make_chan 10) \<and>
   (0x10007 :: 64 word) \<noteq> 7"
proof -
  have n: "NewPinger 0x10007 (Inr 30100) localAddr = Inr (examplePinger, \<lparr>h_id = 7\<rparr>, make_chan 10)"
    by (simp add: NewPinger_def examplePinger_def localAddr_def Let_def)
  have n': "NewPinger 7 (Inr 30200) localAddr =
     Inr (examplePinger\<lparr>id := 7, local := localAddr\<lparr>UA_Host := (UA_Host localAddr)\<lparr>Port := 30200\<rparr>\<rparr>\<rparr>,
          \<lparr>h_id = 7\<rparr>, make_chan 10)"
    by (simp add: NewPinger_def examplePinger_def localAddr_def Let_def)
  have sends: "map (\<lambda>(pkt, nh). case Pld pkt of EchoRequestPld q \<Rightarrow> Some (Req_Identifier q) | _ \<Rightarrow> None)
     (written (conn (Sends 30041 examplePinger
        [(1790000000000000000, None, remoteAddr ia110 noPath None, 1, 0),
         (1790000001000000000, None, remoteAddr ia112 somePath (Some hopAddr), 2, 16)]))) =
     [Some 7, Some 7]"
    by (simp add: Send_def Let_def pack_def WriteTo_def examplePinger_def remoteAddr_def
        localAddr_def IsEmpty_def IA_Equal_def noPath_def somePath_def ia110_def ia112_def)
  note inst = probe_identifier_is_low_16_bits [OF n, of 30041
        "[(1790000000000000000, None, remoteAddr ia110 noPath None, 1, 0),
          (1790000001000000000, None, remoteAddr ia112 somePath (Some hopAddr), 2, 16)]"
        "echoReplyPacket 7 []" 7 "Inr 30200" localAddr
        "examplePinger\<lparr>id := 7, local := localAddr\<lparr>UA_Host := (UA_Host localAddr)\<lparr>Port := 30200\<rparr>\<rparr>\<rparr>"
        "\<lparr>h_id = 7\<rparr>" "make_chan 10"]
  from inst have "snd (handle \<lparr>h_id = 7\<rparr> (echoReplyPacket 7 [])) = None \<longleftrightarrow>
      (\<exists>r. Pld (echoReplyPacket 7 []) = EchoReplyPld r \<and> Identifier r = ucast (0x10007 :: 64 word))"
    by blast
  then have acc: "snd (handle \<lparr>h_id = 7\<rparr> (echoReplyPacket 7 [])) = None"
    by (simp add: echoReplyPacket_def)
  have rej: "snd (handle \<lparr>h_id = 7\<rparr> (echoReplyPacket 9 [])) \<noteq> None"
    by (simp add: handle_def echoReplyPacket_def)
  have ne: "(0x10007 :: 64 word) \<noteq> 7"
    by simp
  show ?thesis
    using n n' sends acc rej ne by blast
qed

text \<open>
  Claim C3, as stated, fails: an echo reply that carries a foreign identifier is not kept
  off the reply channel. Here the handler with identifier 7 receives an echo reply with
  identifier 9, and \<open>Handle\<close> sends a \<open>Reply\<close> for it on the channel and returns
  nil.
\<close>

theorem wrong_identifier_reply_counterexample:
  "Pld (echoReplyPacket 9 [1, 2, 3, 4, 5, 6, 7, 8]) =
     EchoReplyPld \<lparr>Identifier = 9, SeqNumber = 3, Payload = [1, 2, 3, 4, 5, 6, 7, 8]\<rparr> \<and>
   (9 :: 16 word) \<noteq> h_id \<lparr>h_id = 7\<rparr> \<and>
   Handle \<lparr>h_id = 7\<rparr> 1000 (echoReplyPacket 9 [1, 2, 3, 4, 5, 6, 7, 8]) (make_chan 10) =
     Returned \<lparr>buf = [\<lparr>Received = 1000, R_Source = \<lparr>SA_IA = ia112, SA_Host = [127, 0, 0, 2]\<rparr>,
                         R_Path = somePath, Size = 60, R_Reply = emptyEchoReply,
                         Error = Some (WrongSCMPID 7 9)\<rparr>], cap = 10\<rparr> None"
  by (simp add: Handle_def chan_send_def make_chan_def mkReply_def handle_def echoReplyPacket_def)

text \<open>
  Claim C3, amended. For an echo reply whose identifier differs from the handler's,
  \<open>Handle\<close> sends one \<open>Reply\<close> on the channel whose \<open>Error\<close> is the wrong-identifier
  error and whose echo reply is the empty one, so the foreign sequence number and payload
  are not passed on, and it returns nil. A \<open>Reply\<close> that arrives with a nil \<open>Error\<close>
  carries the echo reply of the packet and the handler's own identifier. The error hook
  takes no part: \<open>NewPinger\<close> leaves it nil, and \<open>Drain\<close> then reports nothing.
\<close>

theorem wrong_identifier_reply_is_delivered_as_error:
  "(Pld pkt = EchoReplyPld r \<and> Identifier r \<noteq> h_id h \<and> length (buf c) < cap c \<longrightarrow>
      (\<exists>rep. Handle h now pkt c = Returned (c\<lparr>buf := buf c @ [rep]\<rparr>) None \<and>
             Error rep = Some (WrongSCMPID (h_id h) (Identifier r)) \<and>
             R_Reply rep = emptyEchoReply)) \<and>
   (Handle h now pkt' c1 = Returned c2 e \<and> Error (last (buf c2)) = None \<longrightarrow>
      (\<exists>r'. Pld pkt' = EchoReplyPld r' \<and> Identifier r' = h_id h \<and> R_Reply (last (buf c2)) = r')) \<and>
   (NewPinger rnd reg loc = Inr (p, h0, c0) \<longrightarrow> Drain p evs = [])"
proof (intro conjI impI)
  assume a: "Pld pkt = EchoReplyPld r \<and> Identifier r \<noteq> h_id h \<and> length (buf c) < cap c"
  then have "Handle h now pkt c = Returned (c\<lparr>buf := buf c @ [mkReply h now pkt]\<rparr>) None"
    by (simp add: Handle_room)
  moreover have "handle h pkt = (emptyEchoReply, Some (WrongSCMPID (h_id h) (Identifier r)))"
    using a by (simp add: handle_wrong_id)
  ultimately show "\<exists>rep. Handle h now pkt c = Returned (c\<lparr>buf := buf c @ [rep]\<rparr>) None \<and>
             Error rep = Some (WrongSCMPID (h_id h) (Identifier r)) \<and>
             R_Reply rep = emptyEchoReply"
    by (intro exI [of _ "mkReply h now pkt"]) (simp add: mkReply_def)
next
  assume a: "Handle h now pkt' c1 = Returned c2 e \<and> Error (last (buf c2)) = None"
  then have c2: "c2 = c1\<lparr>buf := buf c1 @ [mkReply h now pkt']\<rparr>"
    using Handle_Returned [of h now pkt' c1 c2 e] by simp
  then have l: "last (buf c2) = mkReply h now pkt'"
    by simp
  with a have ok: "snd (handle h pkt') = None"
    by (simp add: mkReply_def)
  then obtain r' where r': "Pld pkt' = EchoReplyPld r'" "Identifier r' = h_id h"
    using handle_accepts [of h pkt'] by blast
  moreover have "R_Reply (last (buf c2)) = r'"
    using handle_accepted_reply [OF ok] r'(1) by (simp add: l mkReply_def)
  ultimately show "\<exists>r'. Pld pkt' = EchoReplyPld r' \<and> Identifier r' = h_id h \<and> R_Reply (last (buf c2)) = r'"
    by blast
next
  assume "NewPinger rnd reg loc = Inr (p, h0, c0)"
  then have "errHandler p = None"
    by (simp add: NewPinger_Inr)
  then show "Drain p evs = []"
    by (rule Drain_no_hook)
qed

text \<open>
  The amended theorem at the handler with identifier 7: its own reply arrives with a nil
  error, and the prober built by \<open>NewPinger\<close> reports no read error to a hook.
\<close>

theorem wrong_identifier_reply_is_delivered_as_error_witness:
  "Handle \<lparr>h_id = 7\<rparr> 1000 (echoReplyPacket 7 [1, 2, 3, 4, 5, 6, 7, 8]) (make_chan 10) =
     Returned \<lparr>buf = [\<lparr>Received = 1000, R_Source = \<lparr>SA_IA = ia112, SA_Host = [127, 0, 0, 2]\<rparr>,
                         R_Path = somePath, Size = 60,
                         R_Reply = \<lparr>Identifier = 7, SeqNumber = 3, Payload = [1, 2, 3, 4, 5, 6, 7, 8]\<rparr>,
                         Error = None\<rparr>], cap = 10\<rparr> None \<and>
   NewPinger 0x10007 (Inr 30100) localAddr = Inr (examplePinger, \<lparr>h_id = 7\<rparr>, make_chan 10) \<and>
   Drain examplePinger [(1000, Some ''closed''), (900000000, Some ''closed'')] = [] \<and>
   length (buf (make_chan 10 :: Reply chan)) < cap (make_chan 10 :: Reply chan) \<and>
   Pld (echoReplyPacket 9 [1, 2, 3, 4, 5, 6, 7, 8]) =
     EchoReplyPld \<lparr>Identifier = 9, SeqNumber = 3, Payload = [1, 2, 3, 4, 5, 6, 7, 8]\<rparr> \<and>
   Identifier \<lparr>Identifier = 9, SeqNumber = 3, Payload = [1, 2, 3, 4, 5, 6, 7, 8]\<rparr> \<noteq> h_id \<lparr>h_id = 7\<rparr>"
proof -
  have pld: "Pld (echoReplyPacket 9 [1, 2, 3, 4, 5, 6, 7, 8]) =
     EchoReplyPld \<lparr>Identifier = 9, SeqNumber = 3, Payload = [1, 2, 3, 4, 5, 6, 7, 8]\<rparr>"
    by (simp add: echoReplyPacket_def)
  have ne: "Identifier \<lparr>Identifier = 9, SeqNumber = 3, Payload = [1, 2, 3, 4, 5, 6, 7, 8]\<rparr> \<noteq> h_id \<lparr>h_id = 7\<rparr>"
    by simp
  have n: "NewPinger 0x10007 (Inr 30100) localAddr = Inr (examplePinger, \<lparr>h_id = 7\<rparr>, make_chan 10)"
    by (simp add: NewPinger_def examplePinger_def localAddr_def Let_def)
  have own: "Handle \<lparr>h_id = 7\<rparr> 1000 (echoReplyPacket 7 [1, 2, 3, 4, 5, 6, 7, 8]) (make_chan 10) =
     Returned \<lparr>buf = [\<lparr>Received = 1000, R_Source = \<lparr>SA_IA = ia112, SA_Host = [127, 0, 0, 2]\<rparr>,
                         R_Path = somePath, Size = 60,
                         R_Reply = \<lparr>Identifier = 7, SeqNumber = 3, Payload = [1, 2, 3, 4, 5, 6, 7, 8]\<rparr>,
                         Error = None\<rparr>], cap = 10\<rparr> None"
    by (simp add: Handle_def chan_send_def make_chan_def mkReply_def handle_def echoReplyPacket_def)
  have room: "length (buf (make_chan 10 :: Reply chan)) < cap (make_chan 10 :: Reply chan)"
    by (simp add: make_chan_def)
  note inst = wrong_identifier_reply_is_delivered_as_error
      [of "echoReplyPacket 9 [1, 2, 3, 4, 5, 6, 7, 8]"
        "\<lparr>Identifier = 9, SeqNumber = 3, Payload = [1, 2, 3, 4, 5, 6, 7, 8]\<rparr>" "\<lparr>h_id = 7\<rparr>"
        "make_chan 10" 1000 "echoReplyPacket 7 [1, 2, 3, 4, 5, 6, 7, 8]" "make_chan 10"
        "\<lparr>buf = [\<lparr>Received = 1000, R_Source = \<lparr>SA_IA = ia112, SA_Host = [127, 0, 0, 2]\<rparr>,
                         R_Path = somePath, Size = 60,
                         R_Reply = \<lparr>Identifier = 7, SeqNumber = 3, Payload = [1, 2, 3, 4, 5, 6, 7, 8]\<rparr>,
                         Error = None\<rparr>], cap = 10\<rparr>" None
        "0x10007" "Inr 30100" localAddr examplePinger "\<lparr>h_id = 7\<rparr>" "make_chan 10"
        "[(1000, Some ''closed''), (900000000, Some ''closed'')]"]
  from inst n have d: "Drain examplePinger [(1000, Some ''closed''), (900000000, Some ''closed'')] = []"
    by blast
  show ?thesis
    using n own room d pld ne by blast
qed

text \<open>
  Claim C7, as stated, fails: the fallback depends on the next hop of the remote address,
  not on its path. Here the remote is in the local domain with an empty path and a next
  hop of its own; \<open>Send\<close> writes the packet to that next hop, not to the remote host at
  the endhost port.
\<close>

theorem Send_next_hop_counterexample:
  "IsEmpty (UA_Path (remoteAddr ia110 noPath (Some hopAddr))) \<and>
   IA_Equal (UA_IA (local examplePinger)) (UA_IA (remoteAddr ia110 noPath (Some hopAddr))) \<and>
   fst (Send 30041 1790000000000000000 None examplePinger (remoteAddr ia110 noPath (Some hopAddr)) 1 0)
     = None \<and>
   map snd (written (conn (snd
     (Send 30041 1790000000000000000 None examplePinger (remoteAddr ia110 noPath (Some hopAddr)) 1 0))))
     = [Some hopAddr] \<and>
   hopAddr \<noteq> \<lparr>IP = IP (UA_Host (remoteAddr ia110 noPath (Some hopAddr))), Port = 30041,
               Zone = Zone (UA_Host (remoteAddr ia110 noPath (Some hopAddr)))\<rparr>"
  by (simp add: Send_def Let_def pack_def WriteTo_def examplePinger_def remoteAddr_def
      localAddr_def IsEmpty_def IA_Equal_def noPath_def ia110_def hopAddr_def)

text \<open>
  Claim C7, amended. When the remote address has no next hop and is in the local domain,
  \<open>Send\<close> writes the packet to the remote host at the endhost port, whatever the path;
  when the remote address has a next hop, and its path is not empty or it is in the local
  domain, the packet is written to that next hop; when the remote path is empty and the
  remote is in another domain, \<open>Send\<close> returns the no-path error and nothing is
  written, with or without a next hop. The first two parts are for a write that succeeds.
\<close>

theorem Send_next_hop:
  "(UA_NextHop remote = None \<and> IA_Equal (UA_IA (local p)) (UA_IA remote) \<longrightarrow>
      fst (Send ep now None p remote sq sz) = None \<and>
      map snd (written (conn (snd (Send ep now None p remote sq sz)))) =
        map snd (written (conn p)) @
          [Some \<lparr>IP = IP (UA_Host remote), Port = ep, Zone = Zone (UA_Host remote)\<rparr>]) \<and>
   (UA_NextHop remote2 = Some nh \<and>
    \<not> (IsEmpty (UA_Path remote2) \<and> \<not> IA_Equal (UA_IA (local p)) (UA_IA remote2)) \<longrightarrow>
      fst (Send ep now None p remote2 sq sz) = None \<and>
      map snd (written (conn (snd (Send ep now None p remote2 sq sz)))) =
        map snd (written (conn p)) @ [Some nh]) \<and>
   (IsEmpty (UA_Path remote3) \<and> \<not> IA_Equal (UA_IA (local p)) (UA_IA remote3) \<longrightarrow>
      fst (Send ep now wr p remote3 sq sz) =
        Some (NoPathForRemote (UA_IA (local p)) (UA_IA remote3)) \<and>
      written (conn (snd (Send ep now wr p remote3 sq sz))) = written (conn p))"
proof (intro conjI impI)
  assume a: "UA_NextHop remote = None \<and> IA_Equal (UA_IA (local p)) (UA_IA remote)"
  then have "\<not> (IsEmpty (UA_Path remote) \<and> \<not> IA_Equal (UA_IA (local p)) (UA_IA remote))"
    by simp
  from Send_writes [OF this, of ep now sq sz] a
  show "fst (Send ep now None p remote sq sz) = None"
    and "map snd (written (conn (snd (Send ep now None p remote sq sz)))) =
        map snd (written (conn p)) @
          [Some \<lparr>IP = IP (UA_Host remote), Port = ep, Zone = Zone (UA_Host remote)\<rparr>]"
    by auto
next
  assume a: "UA_NextHop remote2 = Some nh \<and>
    \<not> (IsEmpty (UA_Path remote2) \<and> \<not> IA_Equal (UA_IA (local p)) (UA_IA remote2))"
  then have "\<not> (IsEmpty (UA_Path remote2) \<and> \<not> IA_Equal (UA_IA (local p)) (UA_IA remote2))"
    by simp
  from Send_writes [OF this, of ep now sq sz] a
  show "fst (Send ep now None p remote2 sq sz) = None"
    and "map snd (written (conn (snd (Send ep now None p remote2 sq sz)))) =
        map snd (written (conn p)) @ [Some nh]"
    by auto
next
  assume a: "IsEmpty (UA_Path remote3) \<and> \<not> IA_Equal (UA_IA (local p)) (UA_IA remote3)"
  then show "fst (Send ep now wr p remote3 sq sz) =
        Some (NoPathForRemote (UA_IA (local p)) (UA_IA remote3))"
    and "written (conn (snd (Send ep now wr p remote3 sq sz))) = written (conn p)"
    by (simp_all add: Send_no_path)
qed

text \<open>The amended theorem at a remote for each of its three parts.\<close>

theorem Send_next_hop_witness:
  "UA_NextHop (remoteAddr ia110 somePath None) = None \<and>
   IA_Equal (UA_IA (local examplePinger)) (UA_IA (remoteAddr ia110 somePath None)) \<and>
   map snd (written (conn (snd
     (Send 30041 1790000000000000000 None examplePinger (remoteAddr ia110 somePath None) 1 0)))) =
     [Some \<lparr>IP = [127, 0, 0, 2], Port = 30041, Zone = []\<rparr>] \<and>
   UA_NextHop (remoteAddr ia112 somePath (Some hopAddr)) = Some hopAddr \<and>
   \<not> IsEmpty (UA_Path (remoteAddr ia112 somePath (Some hopAddr))) \<and>
   map snd (written (conn (snd
     (Send 30041 1790000000000000000 None examplePinger (remoteAddr ia112 somePath (Some hopAddr)) 1 0)))) =
     [Some hopAddr] \<and>
   IsEmpty (UA_Path (remoteAddr ia112 noPath None)) \<and>
   \<not> IA_Equal (UA_IA (local examplePinger)) (UA_IA (remoteAddr ia112 noPath None)) \<and>
   Send 30041 1790000000000000000 None examplePinger (remoteAddr ia112 noPath None) 1 0 =
     (Some (NoPathForRemote ia110 ia112),
      examplePinger\<lparr>pld := stamp_payload examplePinger 1790000000000000000 8\<rparr>)"
proof -
  have h1: "UA_NextHop (remoteAddr ia110 somePath None) = None \<and>
     IA_Equal (UA_IA (local examplePinger)) (UA_IA (remoteAddr ia110 somePath None))"
    by (simp add: remoteAddr_def examplePinger_def localAddr_def IA_Equal_def)
  have h2: "UA_NextHop (remoteAddr ia112 somePath (Some hopAddr)) = Some hopAddr \<and>
     \<not> (IsEmpty (UA_Path (remoteAddr ia112 somePath (Some hopAddr))) \<and>
        \<not> IA_Equal (UA_IA (local examplePinger)) (UA_IA (remoteAddr ia112 somePath (Some hopAddr))))"
    by (simp add: remoteAddr_def IsEmpty_def somePath_def)
  have h3: "IsEmpty (UA_Path (remoteAddr ia112 noPath None)) \<and>
     \<not> IA_Equal (UA_IA (local examplePinger)) (UA_IA (remoteAddr ia112 noPath None))"
    by (simp add: remoteAddr_def examplePinger_def localAddr_def IA_Equal_def IsEmpty_def noPath_def
        ia110_def ia112_def)
  have e: "written (conn examplePinger) = []" "UA_IA (local examplePinger) = ia110"
    "IP (UA_Host (remoteAddr ia110 somePath None)) = [127, 0, 0, 2]"
    "Zone (UA_Host (remoteAddr ia110 somePath None)) = []"
    "UA_IA (remoteAddr ia112 noPath None) = ia112"
    by (simp_all add: examplePinger_def localAddr_def remoteAddr_def)
  note inst = Send_next_hop [of "remoteAddr ia110 somePath None" examplePinger 30041
      1790000000000000000 1 0 "remoteAddr ia112 somePath (Some hopAddr)" hopAddr
      "remoteAddr ia112 noPath None" None]
  from inst h1 have c1: "map snd (written (conn (snd
     (Send 30041 1790000000000000000 None examplePinger (remoteAddr ia110 somePath None) 1 0)))) =
     [Some \<lparr>IP = [127, 0, 0, 2], Port = 30041, Zone = []\<rparr>]"
    by (simp add: e)
  from inst h2 have c2: "map snd (written (conn (snd
     (Send 30041 1790000000000000000 None examplePinger (remoteAddr ia112 somePath (Some hopAddr)) 1 0)))) =
     [Some hopAddr]"
    by (simp add: e)
  have c3: "Send 30041 1790000000000000000 None examplePinger (remoteAddr ia112 noPath None) 1 0 =
     (Some (NoPathForRemote ia110 ia112),
      examplePinger\<lparr>pld := stamp_payload examplePinger 1790000000000000000 8\<rparr>)"
    using h3 by (simp add: Send_def Let_def pack_def payload_size_def e)
  have h2': "\<not> IsEmpty (UA_Path (remoteAddr ia112 somePath (Some hopAddr)))"
    by (simp add: remoteAddr_def IsEmpty_def somePath_def)
  show ?thesis
    using h1 h2 h2' h3 c1 c2 c3 by blast
qed




section \<open>Properties of the ACL loader\<close>

subsection \<open>Helper lemmas\<close>













subsection \<open>Claims about the ACL loader\<close>




section \<open>Properties of the packet filter\<close>

text \<open>
  Claim C2. \<open>FilterPacket\<close>, given the packet and the fingerprint of the path it used:
  with the ACL unset it accepts; with the ACL set and an entry for the source domain it
  accepts exactly when the fingerprint is in that entry; with the ACL set and no entry for
  the domain it drops.
\<close>

theorem FilterPacket_decision:
  "(allowedPaths c0 = None \<longrightarrow> FilterPacket c0 pkt fp) \<and>
   (allowedPaths c1 = Some acl1 \<and> map_of acl1 (SA_IA (Source pkt)) = Some fps \<longrightarrow>
      (FilterPacket c1 pkt fp \<longleftrightarrow> fp \<in> set fps)) \<and>
   (allowedPaths c2 = Some acl2 \<and> map_of acl2 (SA_IA (Source pkt)) = None \<longrightarrow>
      \<not> FilterPacket c2 pkt fp)"
  by (simp add: FilterPacket_def)

text \<open>
  The theorem at the spec's example: from the listed domain, \<open>fp1\<close> is accepted and
  \<open>fp3\<close> dropped; a packet from a domain not listed is dropped; without an ACL
  \<open>fp3\<close> is accepted.
\<close>

theorem FilterPacket_decision_witness:
  "allowedPaths openConn = None \<and>
   FilterPacket openConn (packetFrom ia112) ''fp3'' \<and>
   allowedPaths aclConn = Some [(ia112, [''fp1'', ''fp2''])] \<and>
   map_of [(ia112, [''fp1'', ''fp2''])] (SA_IA (Source (packetFrom ia112))) = Some [''fp1'', ''fp2''] \<and>
   FilterPacket aclConn (packetFrom ia112) ''fp1'' \<and>
   \<not> FilterPacket aclConn (packetFrom ia112) ''fp3'' \<and>
   map_of [(ia112, [''fp1'', ''fp2''])] (SA_IA (Source (packetFrom ia110))) = None \<and>
   \<not> FilterPacket aclConn (packetFrom ia110) ''fp1''"
proof -
  have o: "allowedPaths openConn = None"
    by (simp add: openConn_def)
  have a: "allowedPaths aclConn = Some [(ia112, [''fp1'', ''fp2''])]"
    by (simp add: aclConn_def)
  have m1: "map_of [(ia112, [''fp1'', ''fp2''])] (SA_IA (Source (packetFrom ia112))) =
      Some [''fp1'', ''fp2'']"
    by (simp add: packetFrom_def)
  have m2: "map_of [(ia112, [''fp1'', ''fp2''])] (SA_IA (Source (packetFrom ia110))) = None"
    by (simp add: packetFrom_def ia110_def ia112_def)
  from FilterPacket_decision [of openConn "packetFrom ia112" "''fp3''"] o
  have c0: "FilterPacket openConn (packetFrom ia112) ''fp3''"
    by blast
  from FilterPacket_decision [of openConn "packetFrom ia112" "''fp1''" aclConn
      "[(ia112, [''fp1'', ''fp2''])]" "[''fp1'', ''fp2'']"] a m1
  have c1: "FilterPacket aclConn (packetFrom ia112) ''fp1''"
    by simp
  from FilterPacket_decision [of openConn "packetFrom ia112" "''fp3''" aclConn
      "[(ia112, [''fp1'', ''fp2''])]" "[''fp1'', ''fp2'']"] a m1
  have c2: "\<not> FilterPacket aclConn (packetFrom ia112) ''fp3''"
    by simp
  from FilterPacket_decision [of openConn "packetFrom ia110" "''fp1''" aclConn
      "[(ia112, [''fp1'', ''fp2''])]" "[''fp1'', ''fp2'']" aclConn "[(ia112, [''fp1'', ''fp2''])]"] a m2
  have c3: "\<not> FilterPacket aclConn (packetFrom ia110) ''fp1''"
    by simp
  show ?thesis
    using o a m1 m2 c0 c1 c2 c3 by blast
qed

section \<open>Properties of address mangling and of the dial path\<close>

subsection \<open>Helper lemmas: characters and scanning\<close>

lemma takeWhile_all: "list_all P xs \<Longrightarrow> takeWhile P xs = xs"
  by (simp add: list_all_iff)

lemma dropWhile_all: "list_all P xs \<Longrightarrow> dropWhile P xs = []"
  by (simp add: list_all_iff)

lemma takeWhile_stop: "list_all P xs \<Longrightarrow> \<not> P c \<Longrightarrow> takeWhile P (xs @ c # ys) = xs"
  by (simp add: list_all_iff takeWhile_append2)

lemma dropWhile_stop: "list_all P xs \<Longrightarrow> \<not> P c \<Longrightarrow> dropWhile P (xs @ c # ys) = c # ys"
  by (simp add: list_all_iff dropWhile_append2)

lemma list_all_mono: "list_all P xs \<Longrightarrow> (\<And>x. P x \<Longrightarrow> Q x) \<Longrightarrow> list_all Q xs"
  by (auto simp: list_all_iff)

lemma no_char: "list_all P xs \<Longrightarrow> \<not> P c \<Longrightarrow> c \<notin> set xs"
  by (auto simp: list_all_iff)

lemma is_digit_hex: "is_digit c \<Longrightarrow> is_hex c"
  by (auto simp: is_digit_def is_hex_def)

lemma is_digit_alnum: "is_digit c \<Longrightarrow> is_alnum c"
  by (simp add: is_alnum_def)

lemma is_hex_alnum: "is_hex c \<Longrightarrow> is_alnum c"
  by (auto simp: is_hex_def is_alnum_def is_alpha_def is_digit_def)

lemma not_alnum [simp]:
  "\<not> is_alnum CHR '',''" "\<not> is_alnum CHR '':''" "\<not> is_alnum CHR ''[''" "\<not> is_alnum CHR '']''"
  "\<not> is_alnum CHR ''/''" "\<not> is_alnum CHR ''?''" "\<not> is_alnum CHR ''@''" "\<not> is_alnum CHR ''-''"
  "\<not> is_alnum CHR ''.''" "\<not> is_alnum CHR ''_''" "\<not> is_alnum CHR ''#''" "\<not> is_alnum CHR ''%''"
  by (simp_all add: is_alnum_def is_alpha_def is_digit_def)

lemma not_hex [simp]:
  "\<not> is_hex CHR '',''" "\<not> is_hex CHR '':''" "\<not> is_hex CHR ''[''" "\<not> is_hex CHR '']''"
  "\<not> is_hex CHR ''/''" "\<not> is_hex CHR ''?''" "\<not> is_hex CHR ''@''" "\<not> is_hex CHR ''-''"
  "\<not> is_hex CHR ''.''" "\<not> is_hex CHR ''#''" "\<not> is_hex CHR ''%''"
  using is_hex_alnum not_alnum by blast+

lemma not_digit [simp]:
  "\<not> is_digit CHR '',''" "\<not> is_digit CHR '':''" "\<not> is_digit CHR ''[''" "\<not> is_digit CHR '']''"
  "\<not> is_digit CHR ''/''" "\<not> is_digit CHR ''?''" "\<not> is_digit CHR ''@''" "\<not> is_digit CHR ''-''"
  "\<not> is_digit CHR ''.''" "\<not> is_digit CHR ''#''" "\<not> is_digit CHR ''%''"
  using is_digit_hex not_hex by blast+

lemma not_digit_letter [simp]: "\<not> is_digit CHR ''v''" "\<not> is_digit CHR ''V''"
  by (simp_all add: is_digit_def)

subsection \<open>Helper lemmas: the pieces of a text\<close>

lemma split_on_not_Nil [simp]: "split_on c s \<noteq> []"
  by (cases s) (simp_all split: list.splits)

lemma split_on_step:
  "x \<noteq> c \<Longrightarrow> split_on c (x # xs) = (x # hd (split_on c xs)) # tl (split_on c xs)"
  by (cases "split_on c xs") simp_all

lemma split_on_sep: "split_on c (c # xs) = [] # split_on c xs"
  by simp

lemma length_split_on: "length (split_on c s) = Suc (length (filter (\<lambda>x. x = c) s))"
proof (induction s)
  case Nil
  then show ?case by simp
next
  case (Cons x xs)
  have "length (tl (split_on c xs)) = length (filter (\<lambda>x. x = c) xs)"
    using Cons.IH by simp
  with Cons.IH show ?case by (cases "x = c") (simp_all add: split_on_step split_on_sep del: split_on.simps)
qed

lemma hd_split_on: "hd (split_on c s) = takeWhile (\<lambda>x. x \<noteq> c) s"
proof (induction s)
  case Nil
  then show ?case by simp
next
  case (Cons x xs)
  then show ?case by (cases "x = c") (simp_all add: split_on_step split_on_sep del: split_on.simps)
qed

lemma split_on_chars:
  "list_all (list_all P) (split_on c s) \<Longrightarrow> list_all (\<lambda>x. P x \<or> x = c) s"
proof (induction s)
  case Nil
  then show ?case by simp
next
  case (Cons x xs)
  show ?case
  proof (cases "x = c")
    case True
    with Cons show ?thesis by simp
  next
    case False
    have e: "split_on c xs = hd (split_on c xs) # tl (split_on c xs)"
      by simp
    from Cons.prems False
    have "P x" "list_all P (hd (split_on c xs))" "list_all (list_all P) (tl (split_on c xs))"
      by (simp_all add: split_on_step split_on_sep del: split_on.simps)
    then have "list_all (list_all P) (hd (split_on c xs) # tl (split_on c xs))"
      by (simp only: list.pred_inject simp_thms)
    then have "list_all (list_all P) (split_on c xs)"
      by simp
    with Cons.IH \<open>P x\<close> show ?thesis by simp
  qed
qed

lemma pieces_chars:
  "list_all (list_all P) (pieces s) \<Longrightarrow> list_all (\<lambda>x. P x \<or> x = CHR '':'') s"
  by (cases "s = []") (simp_all add: pieces_def split_on_chars)

lemma find_elision_Some: "find_elision a = Some (l, r) \<Longrightarrow> a = l @ ''::'' @ r"
proof (induction a arbitrary: l rule: find_elision.induct)
  case (1 x y zs)
  show ?case
  proof (cases "x = CHR '':'' \<and> y = CHR '':''")
    case True
    with 1(2) show ?thesis by simp
  next
    case False
    with 1(2) obtain l' where l': "find_elision (y # zs) = Some (l', r)" "l = x # l'"
      by auto
    from 1(1) [OF False l'(1)] l'(2) show ?thesis by simp
  qed
qed simp_all

subsection \<open>Helper lemmas: the characters of the tokens\<close>

lemma dec_octet_digits: "is_dec_octet s \<Longrightarrow> list_all is_digit s"
proof (induction s rule: is_dec_octet.induct)
  case (3 a b c)
  then have "a = CHR ''1'' \<or> a = CHR ''2''" by auto
  then have "is_digit a" by (auto simp: is_digit_def)
  with 3 show ?case by simp
qed simp_all

lemma ip4_digits:
  assumes "is_ip4 a"
  shows "list_all (\<lambda>c. is_digit c \<or> c = CHR ''.'') a" and "a \<noteq> []"
proof -
  from assms have "list_all is_dec_octet (split_on CHR ''.'' a)"
    by (simp add: is_ip4_def)
  then have "list_all (list_all is_digit) (split_on CHR ''.'' a)"
    by (rule list_all_mono) (rule dec_octet_digits)
  then show "list_all (\<lambda>c. is_digit c \<or> c = CHR ''.'') a"
    by (rule split_on_chars)
  from assms show "a \<noteq> []"
    by (auto simp: is_ip4_def)
qed

lemma h16_hex: "is_h16 g \<Longrightarrow> list_all (\<lambda>c. is_hex c \<or> c = CHR ''.'') g"
  by (auto simp: is_h16_def list_all_iff)

lemma ip4_hex: "is_ip4 g \<Longrightarrow> list_all (\<lambda>c. is_hex c \<or> c = CHR ''.'') g"
  using ip4_digits(1) [of g] by (auto simp: list_all_iff is_digit_hex)

lemma ip6_units_hex:
  assumes "ip6_units gs = Some n"
  shows "list_all (list_all (\<lambda>c. is_hex c \<or> c = CHR ''.'')) gs"
proof (cases "list_all is_h16 gs")
  case True
  then show ?thesis by (rule list_all_mono) (rule h16_hex)
next
  case False
  with assms have n: "gs \<noteq> []" and b: "list_all is_h16 (butlast gs)" and l: "is_ip4 (last gs)"
    by (auto simp: ip6_units_def split: if_splits)
  have "list_all (list_all (\<lambda>c. is_hex c \<or> c = CHR ''.'')) (butlast gs)"
    using b by (rule list_all_mono) (rule h16_hex)
  then have "list_all (list_all (\<lambda>c. is_hex c \<or> c = CHR ''.'')) (butlast gs @ [last gs])"
    using ip4_hex [OF l] by simp
  with n show ?thesis by simp
qed

lemma h16_units: "list_all is_h16 gs \<Longrightarrow> ip6_units gs = Some (length gs)"
  by (simp add: ip6_units_def)

lemma ip6_hex:
  assumes "is_ip6 a"
  shows "list_all (\<lambda>c. is_hex c \<or> c = CHR ''.'' \<or> c = CHR '':'') a"
proof (cases "find_elision a")
  case None
  with assms have "ip6_units (pieces a) = Some 8"
    by (simp add: is_ip6_def)
  from pieces_chars [OF ip6_units_hex [OF this]] show ?thesis
    by (auto simp: list_all_iff)
next
  case (Some lr)
  obtain l r where lr: "lr = (l, r)" by (cases lr)
  from assms Some lr obtain n where l: "list_all is_h16 (pieces l)" and r: "ip6_units (pieces r) = Some n"
    by (auto simp: is_ip6_def split: option.splits)
  have a: "a = l @ ''::'' @ r"
    using Some lr find_elision_Some [of a l r] by simp
  from pieces_chars [OF ip6_units_hex [OF h16_units [OF l]]] pieces_chars [OF ip6_units_hex [OF r]]
  show ?thesis
    unfolding a by (auto simp: list_all_iff)
qed

lemma ip6_colons:
  assumes "is_ip6 a"
  shows "2 \<le> length (filter (\<lambda>c. c = CHR '':'') a)"
proof (cases "find_elision a")
  case None
  with assms have u: "ip6_units (pieces a) = Some 8"
    by (simp add: is_ip6_def)
  then have "7 \<le> length (pieces a)"
    by (auto simp: ip6_units_def split: if_splits)
  moreover from this have "a \<noteq> []"
    by (auto simp: pieces_def)
  ultimately show ?thesis
    by (simp add: pieces_def length_split_on)
next
  case (Some lr)
  obtain l r where lr: "lr = (l, r)" by (cases lr)
  have a: "a = l @ ''::'' @ r"
    using Some lr find_elision_Some [of a l r] by simp
  show ?thesis
    unfolding a by simp
qed

lemma decimal_hex: "is_decimal s \<Longrightarrow> list_all (\<lambda>c. is_hex c \<or> c = CHR '':'') s"
  by (auto simp: is_decimal_def list_all_iff is_digit_hex)

lemma as_hex:
  assumes "is_as s"
  shows "list_all (\<lambda>c. is_hex c \<or> c = CHR '':'') s"
proof (cases "is_decimal s")
  case True
  then show ?thesis by (rule decimal_hex)
next
  case False
  with assms have "list_all is_h16 (split_on CHR '':'' s)"
    by (simp add: is_as_def)
  then have "list_all (list_all is_hex) (split_on CHR '':'' s)"
    by (auto simp: list_all_iff is_h16_def)
  then show ?thesis
    by (rule split_on_chars)
qed

lemma domain_hex:
  assumes "is_domain d"
  shows "list_all (\<lambda>c. is_hex c \<or> c = CHR '':'' \<or> c = CHR ''-'') d"
    and "d \<noteq> []" and "is_digit (hd d)"
proof -
  define ps where "ps = split_on CHR ''-'' d"
  from assms have len: "length ps = 2" and i: "is_decimal (hd ps)" and a: "is_as (last ps)"
    by (simp_all add: is_domain_def ps_def)
  from len obtain x y where xy: "ps = [x, y]"
    by (cases ps; cases "tl ps") auto
  have "list_all (list_all (\<lambda>c. is_hex c \<or> c = CHR '':'')) ps"
    using i a by (simp add: xy decimal_hex as_hex)
  then have "list_all (\<lambda>c. (is_hex c \<or> c = CHR '':'') \<or> c = CHR ''-'') d"
    unfolding ps_def by (rule split_on_chars)
  then show "list_all (\<lambda>c. is_hex c \<or> c = CHR '':'' \<or> c = CHR ''-'') d"
    by (auto simp: list_all_iff)
  have t: "takeWhile (\<lambda>x. x \<noteq> CHR ''-'') d = hd ps"
    by (simp add: ps_def hd_split_on)
  from i have ne: "hd ps \<noteq> []" and dg: "is_digit (hd (hd ps))"
    by (auto simp: is_decimal_def list_all_iff)
  from t ne show "d \<noteq> []"
    by auto
  then obtain c cs where d: "d = c # cs"
    by (cases d) auto
  from t ne have "hd (hd ps) = c"
    unfolding d by (cases "c = CHR ''-''") (auto simp: eq_commute [of _ "hd ps"])
  with dg show "is_digit (hd d)"
    by (simp add: d)
qed

subsection \<open>Helper lemmas: parsing the legal forms\<close>

lemma domain_chars:
  assumes "is_domain d"
  shows "CHR '','' \<notin> set d" "CHR '']'' \<notin> set d" "CHR ''['' \<notin> set d" "CHR ''/'' \<notin> set d"
    "CHR ''?'' \<notin> set d" "CHR ''@'' \<notin> set d" "d \<noteq> []"
    "list_all (\<lambda>c. c \<noteq> CHR '','') d" "list_all (\<lambda>c. c \<noteq> CHR '']'') d"
    "CHR ''#'' \<notin> set d"
  using domain_hex(1,2) [OF assms] by (auto simp: list_all_iff)

lemma ip_hex:
  assumes "is_ip a"
  shows "list_all (\<lambda>c. is_hex c \<or> c = CHR ''.'' \<or> c = CHR '':'') a" and "a \<noteq> []"
proof -
  from assms show "list_all (\<lambda>c. is_hex c \<or> c = CHR ''.'' \<or> c = CHR '':'') a"
    using ip4_hex [of a] ip6_hex [of a] by (auto simp: is_ip_def list_all_iff)
  from assms show "a \<noteq> []"
    using ip4_digits(2) [of a] ip6_colons [of a] by (auto simp: is_ip_def)
qed

lemma ip_chars:
  assumes "is_ip a"
  shows "CHR '','' \<notin> set a" "CHR '']'' \<notin> set a" "CHR ''['' \<notin> set a" "CHR ''/'' \<notin> set a"
    "CHR ''?'' \<notin> set a" "CHR ''@'' \<notin> set a" "a \<noteq> []"
    "list_all (\<lambda>c. c \<noteq> CHR '','') a" "list_all (\<lambda>c. c \<noteq> CHR '']'') a"
    "CHR ''#'' \<notin> set a"
  using ip_hex [OF assms] by (auto simp: list_all_iff)

lemma port_chars:
  assumes "is_port p"
  shows "CHR '','' \<notin> set p" "CHR '']'' \<notin> set p" "CHR ''['' \<notin> set p" "CHR ''/'' \<notin> set p"
    "CHR ''?'' \<notin> set p" "CHR ''@'' \<notin> set p" "CHR '':'' \<notin> set p" "p \<noteq> []"
    "list_all (\<lambda>c. c \<noteq> CHR '':'') p" "list_all is_digit p"
    "CHR ''#'' \<notin> set p"
  using assms by (auto simp: is_port_def is_decimal_def list_all_iff)

lemma hostname_chars:
  assumes "is_hostname h"
  shows "CHR '','' \<notin> set h" "CHR '']'' \<notin> set h" "CHR ''['' \<notin> set h" "CHR ''/'' \<notin> set h"
    "CHR ''?'' \<notin> set h" "CHR ''@'' \<notin> set h" "CHR '':'' \<notin> set h" "h \<noteq> []"
    "list_all (\<lambda>c. c \<noteq> CHR '':'') h"
    "CHR ''#'' \<notin> set h"
  using assms by (auto simp: is_hostname_def list_all_iff)

lemma ip4_is_ip: "is_ip4 a \<Longrightarrow> is_ip a"
  by (simp add: is_ip_def)

lemma ip4_no_colon:
  assumes "is_ip4 a"
  shows "CHR '':'' \<notin> set a" "list_all (\<lambda>c. c \<noteq> CHR '':'') a"
    "filter (\<lambda>c. c = CHR '':'') a = []"
  using ip4_digits(1) [OF assms] by (auto simp: list_all_iff filter_empty_conv)

lemma ip6_is_ip: "is_ip6 a \<Longrightarrow> is_ip a"
  by (simp add: is_ip_def)

lemma ip6_colon: "is_ip6 a \<Longrightarrow> CHR '':'' \<in> set a"
proof -
  assume "is_ip6 a"
  then have "filter (\<lambda>c. c = CHR '':'') a \<noteq> []"
    using ip6_colons [of a] by auto
  then show ?thesis
    by (auto simp: filter_empty_conv)
qed

lemma not_bracket_first: "CHR ''['' \<notin> set a \<Longrightarrow> take 1 (a @ b) = ''['' \<Longrightarrow> a = []"
  by (cases a) auto

lemma port_no_colon_filter: "is_port p \<Longrightarrow> filter (\<lambda>c. c = CHR '':'') p = []"
  by (auto simp: is_port_def is_decimal_def list_all_iff filter_empty_conv)

lemma parseHostPort_ip4: "is_ip4 a \<Longrightarrow> parseHostPort a = Some (a, None)"
  using ip_chars(3,7) [OF ip4_is_ip, of a] not_bracket_first [of a "[]"]
  by (auto simp: parseHostPort_def ip4_no_colon ip4_is_ip)

lemma parseHostPort_ip4_port:
  assumes "is_ip4 a" "is_port p"
  shows "parseHostPort (a @ '':'' @ p) = Some (a, Some p)"
proof -
  have nb: "take 1 (a @ '':'' @ p) \<noteq> ''[''"
    using ip_chars(3,7) [OF ip4_is_ip [OF assms(1)]] not_bracket_first [of a "'':'' @ p"] by blast
  have cnt: "length (filter (\<lambda>c. c = CHR '':'') (a @ '':'' @ p)) = 1"
    by (simp add: ip4_no_colon(3) [OF assms(1)] port_no_colon_filter [OF assms(2)])
  show ?thesis
    using nb cnt assms
    by (simp add: parseHostPort_def Let_def takeWhile_stop dropWhile_stop ip4_no_colon ip4_is_ip)
qed

lemma parseHostPort_ip6: "is_ip6 a \<Longrightarrow> parseHostPort a = Some (a, None)"
  using ip_chars(3,7) [OF ip6_is_ip, of a] not_bracket_first [of a "[]"] ip6_colons [of a]
  by (auto simp: parseHostPort_def ip6_is_ip)

lemma parseHostPort_bracket:
  assumes "is_ip a"
  shows "parseHostPort (''['' @ a @ '']'') = Some (a, None)"
  using assms by (simp add: parseHostPort_def Let_def takeWhile_stop dropWhile_stop ip_chars)

lemma parseHostPort_bracket_port:
  assumes "is_ip a" "is_port p"
  shows "parseHostPort (''['' @ a @ '']'' @ '':'' @ p) = Some (a, Some p)"
  using assms by (simp add: parseHostPort_def Let_def takeWhile_stop dropWhile_stop ip_chars)

lemma parseSCIONAddr_domain:
  assumes "is_domain d"
  shows "parseSCIONAddr (d @ '','' @ r) =
     (case parseHostPort r of None \<Rightarrow> None | Some (ip, port) \<Rightarrow> Some (d, ip, port))"
  using assms
  by (simp add: parseSCIONAddr_def Let_def takeWhile_stop dropWhile_stop domain_chars)

lemma parseSCIONAddr_no_comma: "CHR '','' \<notin> set s \<Longrightarrow> parseSCIONAddr s = None"
  by (simp add: parseSCIONAddr_def)

lemma parseSCIONAddr_form:
  assumes "legal f"
  shows "parseSCIONAddr (form_text f) =
     (case f of
        Host h \<Rightarrow> None
      | HostPort h p \<Rightarrow> None
      | IPv4 d a \<Rightarrow> Some (d, a, None)
      | IPv4Port d a p \<Rightarrow> Some (d, a, Some p)
      | IPv6 d a \<Rightarrow> Some (d, a, None)
      | IPv6Bracket d a \<Rightarrow> Some (d, a, None)
      | IPv6BracketPort d a p \<Rightarrow> Some (d, a, Some p))"
proof (cases f)
  case (Host h)
  with assms show ?thesis
    by (simp add: parseSCIONAddr_no_comma hostname_chars)
next
  case (HostPort h p)
  with assms show ?thesis
    by (simp add: parseSCIONAddr_no_comma hostname_chars port_chars)
next
  case (IPv4 d a)
  with assms show ?thesis
    using parseSCIONAddr_domain [of d a] by (simp add: parseHostPort_ip4)
next
  case (IPv4Port d a p)
  with assms show ?thesis
    using parseSCIONAddr_domain [of d "a @ '':'' @ p"] parseHostPort_ip4_port [of a p] by simp
next
  case (IPv6 d a)
  with assms show ?thesis
    using parseSCIONAddr_domain [of d a] by (simp add: parseHostPort_ip6)
next
  case (IPv6Bracket d a)
  with assms show ?thesis
    using parseSCIONAddr_domain [of d "''['' @ a @ '']''"] parseHostPort_bracket [of a]
    by (simp add: ip6_is_ip)
next
  case (IPv6BracketPort d a p)
  with assms show ?thesis
    using parseSCIONAddr_domain [of d "''['' @ a @ '']'' @ '':'' @ p"]
      parseHostPort_bracket_port [of a p]
    by (simp add: ip6_is_ip)
qed

lemma mangle_form: "legal f \<Longrightarrow> mangleSCIONAddr (form_text f) = mangled_text f"
  by (cases f) (simp_all only: mangleSCIONAddr_def parseSCIONAddr_form, simp_all add: port_suffix_def)

subsection \<open>Helper lemmas: unmangling and the parts of a URL\<close>

lemma Unmangle_plain: "take 1 s \<noteq> ''['' \<Longrightarrow> UnmangleSCIONAddr s = s"
  by (simp add: UnmangleSCIONAddr_def)

lemma Unmangle_bracket:
  assumes "is_domain d" "is_ip a" "sfx = [] \<or> (\<exists>p. sfx = '':'' @ p \<and> is_port p)"
  shows "UnmangleSCIONAddr (''['' @ d @ '','' @ a @ '']'' @ sfx) =
     d @ '','' @ (if CHR '':'' \<in> set a then ''['' @ a @ '']'' else a) @ sfx"
proof -
  have all: "list_all (\<lambda>c. c \<noteq> CHR '']'') (d @ '','' @ a)"
    using domain_chars(9) [OF assms(1)] ip_chars(9) [OF assms(2)] by simp
  have tw: "takeWhile (\<lambda>c. c \<noteq> CHR '']'') ((d @ '','' @ a) @ CHR '']'' # sfx) = d @ '','' @ a"
    using all by (rule takeWhile_stop) simp
  have dw: "dropWhile (\<lambda>c. c \<noteq> CHR '']'') ((d @ '','' @ a) @ CHR '']'' # sfx) = CHR '']'' # sfx"
    using all by (rule dropWhile_stop) simp
  have tw2: "takeWhile (\<lambda>c. c \<noteq> CHR '','') (d @ CHR '','' # a) = d"
    using domain_chars(8) [OF assms(1)] by (rule takeWhile_stop) simp
  have dw2: "dropWhile (\<lambda>c. c \<noteq> CHR '','') (d @ CHR '','' # a) = CHR '','' # a"
    using domain_chars(8) [OF assms(1)] by (rule dropWhile_stop) simp
  have eq: "''['' @ d @ '','' @ a @ '']'' @ sfx = CHR ''['' # ((d @ '','' @ a) @ CHR '']'' # sfx)"
    by simp
  have "UnmangleSCIONAddr (CHR ''['' # ((d @ '','' @ a) @ CHR '']'' # sfx)) =
     d @ '','' @ (if CHR '':'' \<in> set a then ''['' @ a @ '']'' else a) @ sfx"
    unfolding UnmangleSCIONAddr_def Let_def
    apply (simp only: take_Suc_Cons take_0 drop_Suc_Cons drop_0 One_nat_def tw dw)
    using assms tw2 dw2 apply (auto simp: )
    done
  then show ?thesis
    unfolding eq .
qed

lemma authority_chars [simp]:
  "\<not> is_authority_char CHR ''/''" "\<not> is_authority_char CHR ''?''" "\<not> is_authority_char CHR ''#''"
  "is_authority_char CHR ''@''" "is_authority_char CHR '':''" "is_authority_char CHR '',''"
  "is_authority_char CHR ''[''" "is_authority_char CHR '']''"
  by (simp_all add: is_authority_char_def)

lemma not_scheme_char [simp]: "\<not> is_scheme_char CHR '':''"
  by (simp add: is_scheme_char_def)

lemma authority_text:
  "list_all is_authority_char h \<longleftrightarrow>
     CHR ''/'' \<notin> set h \<and> CHR ''?'' \<notin> set h \<and> CHR ''#'' \<notin> set h"
  by (auto simp: list_all_iff is_authority_char_def)

lemma url_parts_scheme:
  assumes "is_scheme w"
  shows "url_parts (w @ ''://'' @ rest) =
     (w @ ''://'',
      rev (dropWhile (\<lambda>c. c \<noteq> CHR ''@'') (rev (takeWhile is_authority_char rest))),
      rev (takeWhile (\<lambda>c. c \<noteq> CHR ''@'') (rev (takeWhile is_authority_char rest))),
      dropWhile is_authority_char rest)"
proof -
  from assms have all: "list_all is_scheme_char w"
    by (simp add: is_scheme_def)
  have t: "takeWhile is_scheme_char (w @ CHR '':'' # ''//'' @ rest) = w"
    using all by (rule takeWhile_stop) simp
  have d: "dropWhile is_scheme_char (w @ CHR '':'' # ''//'' @ rest) = CHR '':'' # ''//'' @ rest"
    using all by (rule dropWhile_stop) simp
  have e: "w @ ''://'' @ rest = w @ CHR '':'' # ''//'' @ rest"
    by simp
  show ?thesis
    unfolding url_parts_def e t d Let_def using assms by simp
qed

lemma authority_split:
  assumes "ui = [] \<or> (\<exists>n. ui = n @ ''@'')" and "CHR ''@'' \<notin> set h"
  shows "rev (dropWhile (\<lambda>c. c \<noteq> CHR ''@'') (rev (ui @ h))) = ui"
    and "rev (takeWhile (\<lambda>c. c \<noteq> CHR ''@'') (rev (ui @ h))) = h"
proof -
  have all: "list_all (\<lambda>c. c \<noteq> CHR ''@'') (rev h)"
    using assms(2) by (auto simp: list_all_iff)
  from assms(1)
  have "dropWhile (\<lambda>c. c \<noteq> CHR ''@'') (rev h @ rev ui) = rev ui \<and>
        takeWhile (\<lambda>c. c \<noteq> CHR ''@'') (rev h @ rev ui) = rev h"
  proof
    assume "ui = []"
    then show ?thesis
      using all by (simp add: takeWhile_all dropWhile_all)
  next
    assume "\<exists>n. ui = n @ ''@''"
    then obtain n where n: "ui = n @ ''@''"
      by blast
    have r: "rev ui = CHR ''@'' # rev n"
      by (simp add: n)
    show ?thesis
      unfolding r using all by (simp add: takeWhile_stop dropWhile_stop)
  qed
  then show "rev (dropWhile (\<lambda>c. c \<noteq> CHR ''@'') (rev (ui @ h))) = ui"
    and "rev (takeWhile (\<lambda>c. c \<noteq> CHR ''@'') (rev (ui @ h))) = h"
    by simp_all
qed

lemma authority_scan:
  assumes "list_all is_authority_char a" "tail = [] \<or> \<not> is_authority_char (hd tail)"
  shows "takeWhile is_authority_char (a @ tail) = a"
    and "dropWhile is_authority_char (a @ tail) = tail"
proof -
  from assms(2)
  have "takeWhile is_authority_char (a @ tail) = a \<and> dropWhile is_authority_char (a @ tail) = tail"
  proof
    assume "tail = []"
    then show ?thesis
      using assms(1) by (simp add: takeWhile_all dropWhile_all)
  next
    assume n: "\<not> is_authority_char (hd tail)"
    show ?thesis
    proof (cases tail)
      case Nil
      then show ?thesis
        using assms(1) by (simp add: takeWhile_all dropWhile_all)
    next
      case (Cons c cs)
      with n have "\<not> is_authority_char c"
        by simp
      then show ?thesis
        unfolding Cons using assms(1) by (simp add: takeWhile_stop dropWhile_stop)
    qed
  qed
  then show "takeWhile is_authority_char (a @ tail) = a"
    and "dropWhile is_authority_char (a @ tail) = tail"
    by simp_all
qed

lemma url_parts_split:
  assumes w: "is_scheme w"
    and ui: "ui = [] \<or> (\<exists>n. ui = n @ ''@'' \<and> list_all is_authority_char n)"
    and h: "list_all is_authority_char h" "CHR ''@'' \<notin> set h"
    and tail: "tail = [] \<or> \<not> is_authority_char (hd tail)"
  shows "url_parts (w @ ''://'' @ ui @ h @ tail) = (w @ ''://'', ui, h, tail)"
proof -
  from ui have ui': "ui = [] \<or> (\<exists>n. ui = n @ ''@'')" and ua: "list_all is_authority_char ui"
    by auto
  from ua h(1) have a: "list_all is_authority_char (ui @ h)"
    by simp
  have e: "w @ ''://'' @ ui @ h @ tail = w @ ''://'' @ ((ui @ h) @ tail)"
    by simp
  show ?thesis
    unfolding e url_parts_scheme [OF w] authority_scan [OF a tail] authority_split [OF ui' h(2)]
    by (rule refl)
qed

lemma url_parts_join:
  assumes "url_parts url = (pre, ui, host, tail)"
  shows "pre @ ui @ host @ tail = url"
proof (cases "is_scheme (takeWhile is_scheme_char url) \<and>
    take 3 (dropWhile is_scheme_char url) = ''://''")
  case False
  with assms show ?thesis
    by (auto simp: url_parts_def Let_def)
next
  case True
  define r where "r = dropWhile is_scheme_char url"
  define a where "a = takeWhile is_authority_char (drop 3 r)"
  from True assms have parts: "pre = takeWhile is_scheme_char url @ ''://''"
    "ui = rev (dropWhile (\<lambda>c. c \<noteq> CHR ''@'') (rev a))"
    "host = rev (takeWhile (\<lambda>c. c \<noteq> CHR ''@'') (rev a))"
    "tail = dropWhile is_authority_char (drop 3 r)"
    unfolding url_parts_def Let_def r_def a_def by simp_all
  have "rev (ui @ host) = rev a"
    unfolding parts by (simp only: rev_append rev_rev_ident takeWhile_dropWhile_id)
  then have uh: "ui @ host = a"
    by (simp only: rev_is_rev_conv)
  have at: "a @ tail = drop 3 r"
    by (simp add: a_def parts)
  from True have "''://'' @ drop 3 r = take 3 r @ drop 3 r"
    by (simp add: r_def)
  then have "''://'' @ drop 3 r = r"
    by (simp only: append_take_drop_id)
  then have "takeWhile is_scheme_char url @ ''://'' @ drop 3 r = url"
    unfolding r_def by (simp only: takeWhile_dropWhile_id)
  then have "pre @ (ui @ host) @ tail = url"
    unfolding uh at [symmetric] parts(1) by simp
  then show ?thesis
    by simp
qed

lemma form_chars:
  assumes "legal f"
  shows "list_all is_authority_char (form_text f)" "CHR ''@'' \<notin> set (form_text f)"
  using assms
  by (cases f; simp add: authority_text hostname_chars port_chars domain_chars ip_chars
      ip4_is_ip ip6_is_ip)+

lemma mangled_chars:
  assumes "legal f"
  shows "list_all is_authority_char (mangled_text f)" "CHR ''@'' \<notin> set (mangled_text f)"
  using assms
  by (cases f; simp add: authority_text hostname_chars port_chars domain_chars ip_chars
      ip4_is_ip ip6_is_ip)+

lemma Mangle_parts:
  assumes "url_parts url = (pre, ui, host, tail)"
  shows "MangleSCIONAddrURL url = pre @ ui @ mangleSCIONAddr host @ tail"
  by (simp add: MangleSCIONAddrURL_def assms)

lemma Mangle_url_host:
  assumes "is_scheme w"
    and "ui = [] \<or> (\<exists>n. ui = n @ ''@'' \<and> list_all is_authority_char n)"
    and "list_all is_authority_char h" "CHR ''@'' \<notin> set h"
    and "tail = [] \<or> \<not> is_authority_char (hd tail)"
  shows "MangleSCIONAddrURL (w @ ''://'' @ ui @ h @ tail) = w @ ''://'' @ ui @ mangleSCIONAddr h @ tail"
  by (simp only: MangleSCIONAddrURL_def url_parts_split [OF assms] prod.case append_assoc)

lemma url_Host_split:
  assumes "is_scheme w"
    and "ui = [] \<or> (\<exists>n. ui = n @ ''@'' \<and> list_all is_authority_char n)"
    and "list_all is_authority_char h" "CHR ''@'' \<notin> set h"
    and "tail = [] \<or> \<not> is_authority_char (hd tail)"
  shows "url_Host (w @ ''://'' @ ui @ h @ tail) = h"
  by (simp only: url_Host_def url_parts_split [OF assms] prod.case)

lemma Mangle_noop: "parseSCIONAddr (url_Host url) = None \<Longrightarrow> MangleSCIONAddrURL url = url"
proof -
  assume a: "parseSCIONAddr (url_Host url) = None"
  obtain pre ui host tail where p: "url_parts url = (pre, ui, host, tail)"
    by (cases "url_parts url") auto
  then have "url_Host url = host"
    by (simp add: url_Host_def)
  with a have "mangleSCIONAddr host = host"
    by (simp add: mangleSCIONAddr_def)
  then show ?thesis
    using url_parts_join [OF p] by (simp add: MangleSCIONAddrURL_def p)
qed

lemma Mangle_legal:
  assumes "is_scheme w"
    and "ui = [] \<or> (\<exists>n. ui = n @ ''@'' \<and> list_all is_authority_char n)"
    and "tail = [] \<or> \<not> is_authority_char (hd tail)"
    and "legal f"
  shows "MangleSCIONAddrURL (w @ ''://'' @ ui @ form_text f @ tail) =
      w @ ''://'' @ ui @ mangled_text f @ tail"
    and "url_Host (MangleSCIONAddrURL (w @ ''://'' @ ui @ form_text f @ tail)) = mangled_text f"
proof -
  have "MangleSCIONAddrURL (w @ ''://'' @ ui @ form_text f @ tail) =
      w @ ''://'' @ ui @ mangleSCIONAddr (form_text f) @ tail"
    using assms(1,2) form_chars [OF assms(4)] assms(3) by (rule Mangle_url_host)
  then show m: "MangleSCIONAddrURL (w @ ''://'' @ ui @ form_text f @ tail) =
      w @ ''://'' @ ui @ mangled_text f @ tail"
    by (simp only: mangle_form [OF assms(4)])
  have "url_Host (w @ ''://'' @ ui @ mangled_text f @ tail) = mangled_text f"
    using assms(1,2) mangled_chars [OF assms(4)] assms(3) by (rule url_Host_split)
  then show "url_Host (MangleSCIONAddrURL (w @ ''://'' @ ui @ form_text f @ tail)) = mangled_text f"
    by (simp only: m)
qed

lemmas text_defs =
  parseSCIONAddr_def parseHostPort_def is_domain_def is_as_def is_decimal_def is_ip_def is_ip4_def
  is_ip6_def pieces_def ip6_units_def is_h16_def is_port_def is_hostname_def is_hex_def
  is_digit_def is_alpha_def is_alnum_def is_scheme_def is_scheme_char_def is_authority_char_def
  Let_def

lemma has_port_plain: "take 1 s \<noteq> ''['' \<Longrightarrow> has_port s = (CHR '':'' \<in> set s)"
  by (simp add: has_port_def)

lemma bracket_scan:
  assumes "is_domain d" "is_ip a"
  shows "dropWhile (\<lambda>c. c \<noteq> CHR '']'') (''['' @ d @ '','' @ a @ '']'' @ sfx) = '']'' @ sfx"
proof -
  have all: "list_all (\<lambda>c. c \<noteq> CHR '']'') (''['' @ d @ '','' @ a)"
    using domain_chars(9) [OF assms(1)] ip_chars(9) [OF assms(2)] by simp
  have "dropWhile (\<lambda>c. c \<noteq> CHR '']'') ((''['' @ d @ '','' @ a) @ CHR '']'' # sfx) = CHR '']'' # sfx"
    using all by (rule dropWhile_stop) simp
  then show ?thesis by simp
qed

lemma has_port_bracket:
  assumes "is_domain d" "is_ip a"
  shows "has_port (''['' @ d @ '','' @ a @ '']'' @ sfx) = (take 1 sfx = '':'')"
proof -
  have "take 2 ('']'' @ sfx) = '']:'' \<longleftrightarrow> take 1 sfx = '':''"
    by (cases sfx) auto
  then show ?thesis
    unfolding has_port_def bracket_scan [OF assms] by simp
qed

lemma hostname_first: "is_hostname h \<Longrightarrow> take 1 (h @ s) \<noteq> ''[''"
  using hostname_chars(3,8) [of h] not_bracket_first [of h s] by blast

lemma last_colon_split:
  assumes "CHR '':'' \<notin> set p"
  shows "rev (takeWhile (\<lambda>c. c \<noteq> CHR '':'') (rev (h @ '':'' @ p))) = p"
    and "rev (drop 1 (dropWhile (\<lambda>c. c \<noteq> CHR '':'') (rev (h @ '':'' @ p)))) = h"
proof -
  have all: "list_all (\<lambda>c. c \<noteq> CHR '':'') (rev p)"
    using assms by (auto simp: list_all_iff)
  have r: "rev (h @ '':'' @ p) = rev p @ CHR '':'' # rev h"
    by simp
  have "takeWhile (\<lambda>c. c \<noteq> CHR '':'') (rev p @ CHR '':'' # rev h) = rev p"
    using all by (rule takeWhile_stop) simp
  then show "rev (takeWhile (\<lambda>c. c \<noteq> CHR '':'') (rev (h @ '':'' @ p))) = p"
    unfolding r by simp
  have "dropWhile (\<lambda>c. c \<noteq> CHR '':'') (rev p @ CHR '':'' # rev h) = CHR '':'' # rev h"
    using all by (rule dropWhile_stop) simp
  then show "rev (drop 1 (dropWhile (\<lambda>c. c \<noteq> CHR '':'') (rev (h @ '':'' @ p)))) = h"
    unfolding r by simp
qed


subsection \<open>Helper lemmas: the host of a URL by the standard\<close>









lemma is_port_443: "is_port ''443''"
  by (simp add: is_port_def is_decimal_def is_digit_def)

lemma canonicalAddr_mangled:
  assumes "legal f"
  shows "UnmangleSCIONAddr (canonicalAddr (mangled_text f)) =
     (case f of
        Host h \<Rightarrow> form_text (HostPort h ''443'')
      | HostPort h p \<Rightarrow> form_text (HostPort h p)
      | IPv4 d a \<Rightarrow> form_text (IPv4Port d a ''443'')
      | IPv4Port d a p \<Rightarrow> form_text (IPv4Port d a p)
      | IPv6 d a \<Rightarrow> form_text (IPv6BracketPort d a ''443'')
      | IPv6Bracket d a \<Rightarrow> form_text (IPv6BracketPort d a ''443'')
      | IPv6BracketPort d a p \<Rightarrow> form_text (IPv6BracketPort d a p))"
proof (cases f)
  case (Host h)
  with assms have h: "is_hostname h" by simp
  have "canonicalAddr h = h @ '':443''"
    using hostname_first [OF h, of "[]"] hostname_chars(7) [OF h]
    by (simp add: canonicalAddr_def has_port_plain)
  then show ?thesis
    using hostname_first [OF h, of "'':443''"] by (simp add: Host Unmangle_plain)
next
  case (HostPort h p)
  with assms have h: "is_hostname h" by simp
  have "canonicalAddr (h @ '':'' @ p) = h @ '':'' @ p"
    using hostname_first [OF h, of "'':'' @ p"] by (simp add: canonicalAddr_def has_port_plain)
  then show ?thesis
    using hostname_first [OF h, of "'':'' @ p"] by (simp add: HostPort Unmangle_plain)
next
  case (IPv4 d a)
  with assms have d: "is_domain d" and a: "is_ip a" "CHR '':'' \<notin> set a"
    by (simp_all add: ip4_is_ip ip4_no_colon)
  have "canonicalAddr (''['' @ d @ '','' @ a @ '']'' @ []) = ''['' @ d @ '','' @ a @ '']'' @ '':443''"
    unfolding canonicalAddr_def has_port_bracket [OF d a(1)] by simp
  then show ?thesis
    using Unmangle_bracket [OF d a(1), of "'':443''"] a(2) is_port_443 by (simp add: IPv4)
next
  case (IPv4Port d a p)
  with assms have d: "is_domain d" and a: "is_ip a" "CHR '':'' \<notin> set a" and p: "is_port p"
    by (simp_all add: ip4_is_ip ip4_no_colon)
  have "canonicalAddr (''['' @ d @ '','' @ a @ '']'' @ '':'' @ p) = ''['' @ d @ '','' @ a @ '']'' @ '':'' @ p"
    unfolding canonicalAddr_def has_port_bracket [OF d a(1)] by simp
  then show ?thesis
    using Unmangle_bracket [OF d a(1), of "'':'' @ p"] a(2) p by (simp add: IPv4Port)
next
  case (IPv6 d a)
  with assms have d: "is_domain d" and a: "is_ip a" "CHR '':'' \<in> set a"
    by (simp_all add: ip6_is_ip ip6_colon)
  have "canonicalAddr (''['' @ d @ '','' @ a @ '']'' @ []) = ''['' @ d @ '','' @ a @ '']'' @ '':443''"
    unfolding canonicalAddr_def has_port_bracket [OF d a(1)] by simp
  then show ?thesis
    using Unmangle_bracket [OF d a(1), of "'':443''"] a(2) is_port_443 by (simp add: IPv6)
next
  case (IPv6Bracket d a)
  with assms have d: "is_domain d" and a: "is_ip a" "CHR '':'' \<in> set a"
    by (simp_all add: ip6_is_ip ip6_colon)
  have "canonicalAddr (''['' @ d @ '','' @ a @ '']'' @ []) = ''['' @ d @ '','' @ a @ '']'' @ '':443''"
    unfolding canonicalAddr_def has_port_bracket [OF d a(1)] by simp
  then show ?thesis
    using Unmangle_bracket [OF d a(1), of "'':443''"] a(2) is_port_443 by (simp add: IPv6Bracket)
next
  case (IPv6BracketPort d a p)
  with assms have d: "is_domain d" and a: "is_ip a" "CHR '':'' \<in> set a" and p: "is_port p"
    by (simp_all add: ip6_is_ip ip6_colon)
  have "canonicalAddr (''['' @ d @ '','' @ a @ '']'' @ '':'' @ p) = ''['' @ d @ '','' @ a @ '']'' @ '':'' @ p"
    unfolding canonicalAddr_def has_port_bracket [OF d a(1)] by simp
  then show ?thesis
    using Unmangle_bracket [OF d a(1), of "'':'' @ p"] a(2) p by (simp add: IPv6BracketPort)
qed

lemma Resolve_name:
  assumes "is_hostname h" "is_port p"
  shows "ResolveUDPAddrAt (form_text (HostPort h p)) resolver =
     (case resolver h of
        None \<Rightarrow> Inl (HostNotFound h)
      | Some (ia, ip) \<Rightarrow> Inr \<lparr>ua_IA = ia, ua_IP = ip, ua_Port = p\<rparr>)"
proof -
  have l: "legal (HostPort h p)" using assms by simp
  have s: "rev (takeWhile (\<lambda>c. c \<noteq> CHR '':'') (rev (h @ '':'' @ p))) = p"
    "rev (drop 1 (dropWhile (\<lambda>c. c \<noteq> CHR '':'') (rev (h @ '':'' @ p)))) = h"
    using port_chars(7) [OF assms(2)] by (rule last_colon_split)+
  have "parseSCIONAddr (h @ '':'' @ p) = None"
    using parseSCIONAddr_form [OF l] by simp
  then show ?thesis
    unfolding ResolveUDPAddrAt_def form_text.simps Let_def s
    using assms(2) by (simp split: option.splits)
qed

lemma Resolve_structured:
  assumes "legal f" "parseSCIONAddr (form_text f) = Some (d, a, Some p)"
  shows "ResolveUDPAddrAt (form_text f) resolver = Inr \<lparr>ua_IA = d, ua_IP = a, ua_Port = p\<rparr>"
  using assms(2) by (simp add: ResolveUDPAddrAt_def)

lemma String_plain:
  "CHR '':'' \<notin> set a \<Longrightarrow>
     UDPAddr_String \<lparr>ua_IA = d, ua_IP = a, ua_Port = p\<rparr> = d @ '','' @ a @ '':'' @ p"
  by (simp add: UDPAddr_String_def)

lemma String_bracket:
  "CHR '':'' \<in> set a \<Longrightarrow>
     UDPAddr_String \<lparr>ua_IA = d, ua_IP = a, ua_Port = p\<rparr> =
       d @ '','' @ ''['' @ a @ '']'' @ '':'' @ p"
  by (simp add: UDPAddr_String_def)

lemma dial_name:
  assumes "is_hostname h" "is_port p"
  shows "(case ResolveUDPAddrAt (form_text (HostPort h p)) resolver of
            Inl err \<Rightarrow> Inl err
          | Inr a \<Rightarrow> Inr (UDPAddr_String a)) = dial_text resolver (HostPort h p)"
  unfolding Resolve_name [OF assms] by (simp split: option.splits)

lemma dial_structured:
  assumes "legal f" "parseSCIONAddr (form_text f) = Some (d, a, Some p)"
  shows "(case ResolveUDPAddrAt (form_text f) resolver of
            Inl err \<Rightarrow> Inl err
          | Inr a \<Rightarrow> Inr (UDPAddr_String a)) =
         Inr (UDPAddr_String \<lparr>ua_IA = d, ua_IP = a, ua_Port = p\<rparr>)"
  unfolding Resolve_structured [OF assms] by simp

lemma dial_unmangled:
  assumes "legal f"
  shows "(case ResolveUDPAddrAt (UnmangleSCIONAddr (canonicalAddr (mangled_text f))) resolver of
            Inl err \<Rightarrow> Inl err
          | Inr a \<Rightarrow> Inr (UDPAddr_String a)) = dial_text resolver f"
proof (cases f)
  case (Host h)
  with assms have h: "is_hostname h" by simp
  have u: "UnmangleSCIONAddr (canonicalAddr (mangled_text f)) = form_text (HostPort h ''443'')"
    using canonicalAddr_mangled [OF assms] by (simp add: Host)
  show ?thesis
    unfolding u dial_name [OF h is_port_443] by (simp add: Host)
next
  case (HostPort h p)
  with assms have h: "is_hostname h" "is_port p" by simp_all
  have u: "UnmangleSCIONAddr (canonicalAddr (mangled_text f)) = form_text (HostPort h p)"
    using canonicalAddr_mangled [OF assms] by (simp add: HostPort)
  show ?thesis
    unfolding u dial_name [OF h] by (simp add: HostPort)
next
  case (IPv4 d a)
  with assms have l: "legal (IPv4Port d a ''443'')" and c: "CHR '':'' \<notin> set a"
    by (simp_all add: is_port_443 ip4_no_colon)
  have u: "UnmangleSCIONAddr (canonicalAddr (mangled_text f)) = form_text (IPv4Port d a ''443'')"
    using canonicalAddr_mangled [OF assms] by (simp add: IPv4)
  have p: "parseSCIONAddr (form_text (IPv4Port d a ''443'')) = Some (d, a, Some ''443'')"
    using parseSCIONAddr_form [OF l] by simp
  show ?thesis
    unfolding u dial_structured [OF l p] String_plain [OF c] by (simp add: IPv4)
next
  case (IPv4Port d a p)
  with assms have l: "legal (IPv4Port d a p)" and c: "CHR '':'' \<notin> set a"
    by (simp_all add: ip4_no_colon)
  have u: "UnmangleSCIONAddr (canonicalAddr (mangled_text f)) = form_text (IPv4Port d a p)"
    using canonicalAddr_mangled [OF assms] by (simp add: IPv4Port)
  have p: "parseSCIONAddr (form_text (IPv4Port d a p)) = Some (d, a, Some p)"
    using parseSCIONAddr_form [OF l] by simp
  show ?thesis
    unfolding u dial_structured [OF l p] String_plain [OF c] by (simp add: IPv4Port)
next
  case (IPv6 d a)
  with assms have l: "legal (IPv6BracketPort d a ''443'')" and c: "CHR '':'' \<in> set a"
    by (simp_all add: is_port_443 ip6_colon)
  have u: "UnmangleSCIONAddr (canonicalAddr (mangled_text f)) =
      form_text (IPv6BracketPort d a ''443'')"
    using canonicalAddr_mangled [OF assms] by (simp add: IPv6)
  have p: "parseSCIONAddr (form_text (IPv6BracketPort d a ''443'')) = Some (d, a, Some ''443'')"
    using parseSCIONAddr_form [OF l] by simp
  show ?thesis
    unfolding u dial_structured [OF l p] String_bracket [OF c] by (simp add: IPv6)
next
  case (IPv6Bracket d a)
  with assms have l: "legal (IPv6BracketPort d a ''443'')" and c: "CHR '':'' \<in> set a"
    by (simp_all add: is_port_443 ip6_colon)
  have u: "UnmangleSCIONAddr (canonicalAddr (mangled_text f)) =
      form_text (IPv6BracketPort d a ''443'')"
    using canonicalAddr_mangled [OF assms] by (simp add: IPv6Bracket)
  have p: "parseSCIONAddr (form_text (IPv6BracketPort d a ''443'')) = Some (d, a, Some ''443'')"
    using parseSCIONAddr_form [OF l] by simp
  show ?thesis
    unfolding u dial_structured [OF l p] String_bracket [OF c] by (simp add: IPv6Bracket)
next
  case (IPv6BracketPort d a p)
  with assms have l: "legal (IPv6BracketPort d a p)" and c: "CHR '':'' \<in> set a"
    by (simp_all add: ip6_colon)
  have u: "UnmangleSCIONAddr (canonicalAddr (mangled_text f)) =
      form_text (IPv6BracketPort d a p)"
    using canonicalAddr_mangled [OF assms] by (simp add: IPv6BracketPort)
  have p: "parseSCIONAddr (form_text (IPv6BracketPort d a p)) = Some (d, a, Some p)"
    using parseSCIONAddr_form [OF l] by simp
  show ?thesis
    unfolding u dial_structured [OF l p] String_bracket [OF c] by (simp add: IPv6BracketPort)
qed

subsection \<open>Helper lemmas: what the parser accepts\<close>

lemma scan_split:
  assumes "c \<in> set s"
  shows "s = takeWhile (\<lambda>x. x \<noteq> c) s @ [c] @ drop 1 (dropWhile (\<lambda>x. x \<noteq> c) s)"
proof -
  from assms have "dropWhile (\<lambda>x. x \<noteq> c) s \<noteq> []"
    by (auto simp: dropWhile_eq_Nil_conv)
  then obtain y ys where d: "dropWhile (\<lambda>x. x \<noteq> c) s = y # ys"
    by (cases "dropWhile (\<lambda>x. x \<noteq> c) s") auto
  then have "y = c"
    using hd_dropWhile [of "\<lambda>x. x \<noteq> c" s] by auto
  with d have "[c] @ drop 1 (dropWhile (\<lambda>x. x \<noteq> c) s) = dropWhile (\<lambda>x. x \<noteq> c) s"
    by simp
  then show ?thesis
    by (simp only: takeWhile_dropWhile_id)
qed

lemma parseHostPort_sound:
  assumes "parseHostPort r = Some (a, port)"
  shows "is_ip a" and "port = None \<or> (\<exists>p. port = Some p \<and> is_port p)"
    and "r = a @ port_suffix port \<or> r = ''['' @ a @ '']'' @ port_suffix port"
proof -
  have "is_ip a \<and> (port = None \<or> (\<exists>p. port = Some p \<and> is_port p)) \<and>
      (r = a @ port_suffix port \<or> r = ''['' @ a @ '']'' @ port_suffix port)"
  proof (cases "take 1 r = ''[''")
    case True
    then obtain r' where r: "r = CHR ''['' # r'"
      by (cases r) auto
    define inner where "inner = takeWhile (\<lambda>c. c \<noteq> CHR '']'') r'"
    define after where "after = dropWhile (\<lambda>c. c \<noteq> CHR '']'') r'"
    have r': "r' = inner @ after"
      by (simp add: inner_def after_def)
    from assms have ip: "is_ip inner"
      and c: "(after = '']'' \<and> a = inner \<and> port = None) \<or>
          (take 2 after = '']:'' \<and> is_port (drop 2 after) \<and> a = inner \<and> port = Some (drop 2 after))"
      unfolding parseHostPort_def r Let_def inner_def [symmetric] after_def [symmetric]
      by (auto simp: inner_def [symmetric] after_def [symmetric] split: if_splits)
    from c show ?thesis
    proof
      assume "after = '']'' \<and> a = inner \<and> port = None"
      with ip show ?thesis
        by (simp add: r r' port_suffix_def)
    next
      assume b: "take 2 after = '']:'' \<and> is_port (drop 2 after) \<and> a = inner \<and>
          port = Some (drop 2 after)"
      then have "'']:'' @ drop 2 after = take 2 after @ drop 2 after"
        by simp
      then have "after = '']:'' @ drop 2 after"
        by (simp only: append_take_drop_id)
      with b ip show ?thesis
        by (simp add: r r' port_suffix_def)
    qed
  next
    case False
    show ?thesis
    proof (cases "length (filter (\<lambda>c. c = CHR '':'') r) = 1")
      case True
      then have "filter (\<lambda>c. c = CHR '':'') r \<noteq> []"
        by auto
      then have "CHR '':'' \<in> set r"
        by (auto simp: filter_empty_conv)
      from scan_split [OF this]
      have s: "r = takeWhile (\<lambda>x. x \<noteq> CHR '':'') r @ '':'' @
          drop 1 (dropWhile (\<lambda>x. x \<noteq> CHR '':'') r)"
        by simp
      from assms False True
      have "is_ip (takeWhile (\<lambda>x. x \<noteq> CHR '':'') r)"
        "is_port (drop 1 (dropWhile (\<lambda>x. x \<noteq> CHR '':'') r))"
        "a = takeWhile (\<lambda>x. x \<noteq> CHR '':'') r"
        "port = Some (drop 1 (dropWhile (\<lambda>x. x \<noteq> CHR '':'') r))"
        by (auto simp: parseHostPort_def Let_def split: if_splits)
      with s show ?thesis
        by (simp add: port_suffix_def)
    next
      case n: False
      with assms False show ?thesis
        by (auto simp: parseHostPort_def Let_def port_suffix_def split: if_splits)
    qed
  qed
  then show "is_ip a" and "port = None \<or> (\<exists>p. port = Some p \<and> is_port p)"
    and "r = a @ port_suffix port \<or> r = ''['' @ a @ '']'' @ port_suffix port"
    by simp_all
qed

lemma parseSCIONAddr_sound:
  assumes "parseSCIONAddr s = Some (d, a, port)"
  shows "is_domain d" and "is_ip a" and "port = None \<or> (\<exists>p. port = Some p \<and> is_port p)"
    and "s = d @ '','' @ a @ port_suffix port \<or> s = d @ '','' @ ''['' @ a @ '']'' @ port_suffix port"
proof -
  define r where "r = drop 1 (dropWhile (\<lambda>c. c \<noteq> CHR '','') s)"
  from assms have c: "CHR '','' \<in> set s"
    by (auto simp: parseSCIONAddr_def split: if_splits)
  from assms c have d: "is_domain (takeWhile (\<lambda>c. c \<noteq> CHR '','') s)"
    "d = takeWhile (\<lambda>c. c \<noteq> CHR '','') s" and p: "parseHostPort r = Some (a, port)"
    by (auto simp: parseSCIONAddr_def Let_def r_def split: if_splits option.splits)
  from d show "is_domain d"
    by simp
  from parseHostPort_sound [OF p] show "is_ip a"
    and "port = None \<or> (\<exists>p. port = Some p \<and> is_port p)"
    by simp_all
  from scan_split [OF c] have s: "s = d @ '','' @ r"
    by (simp add: d(2) r_def)
  from parseHostPort_sound(3) [OF p]
  show "s = d @ '','' @ a @ port_suffix port \<or> s = d @ '','' @ ''['' @ a @ '']'' @ port_suffix port"
    by (subst (1 2) s) simp
qed

lemma Mangle_no_comma: "CHR '','' \<notin> set (url_Host url) \<Longrightarrow> MangleSCIONAddrURL url = url"
  by (rule Mangle_noop) (rule parseSCIONAddr_no_comma)

lemma is_scheme_https: "is_scheme ''https''"
  by (simp add: is_scheme_def is_scheme_char_def is_alnum_def is_alpha_def)

subsection \<open>Claims about mangling\<close>

text \<open>
  Claim C6. For every text, with the parts that the syntax of a URL gives it: when the
  host matches the Structured Address grammar, that is, when it is \<open>domain,host\<close> or
  \<open>domain,[host]\<close> with a domain identifier, an IP address and nothing or \<open>:port\<close>
  behind, \<open>MangleSCIONAddrURL\<close> puts \<open>[domain,host]\<close> with the same port in its
  place and leaves the scheme, the user-info and the rest as they are; when the host does
  not match, and so whenever it has no comma, as a plain host name or a plain IP address
  with or without port, the text comes back unchanged. The parts of
  \<open>scheme://user-info@host\<close> followed by nothing or by a path, a query or a fragment
  are these four, whatever the user-info; and for each of the seven legal forms as the
  host the result is the text the spec gives.
\<close>

theorem Mangle_rewrites_host:
  "(url_parts url = (pre, ui, host, tail) \<and> parseSCIONAddr host = Some (d, a, port) \<longrightarrow>
      url = pre @ ui @ host @ tail \<and>
      MangleSCIONAddrURL url = pre @ ui @ ''['' @ d @ '','' @ a @ '']'' @ port_suffix port @ tail \<and>
      is_domain d \<and> is_ip a \<and> (port = None \<or> (\<exists>p. port = Some p \<and> is_port p)) \<and>
      (host = d @ '','' @ a @ port_suffix port \<or>
       host = d @ '','' @ ''['' @ a @ '']'' @ port_suffix port)) \<and>
   (parseSCIONAddr (url_Host url1) = None \<longrightarrow> MangleSCIONAddrURL url1 = url1) \<and>
   (CHR '','' \<notin> set (url_Host url2) \<longrightarrow> MangleSCIONAddrURL url2 = url2) \<and>
   (is_scheme w \<and> (ui3 = [] \<or> (\<exists>n. ui3 = n @ ''@'' \<and> list_all is_authority_char n)) \<and>
    list_all is_authority_char h \<and> CHR ''@'' \<notin> set h \<and>
    (rest = [] \<or> \<not> is_authority_char (hd rest)) \<longrightarrow>
      url_parts (w @ ''://'' @ ui3 @ h @ rest) = (w @ ''://'', ui3, h, rest)) \<and>
   (is_scheme w \<and> (ui3 = [] \<or> (\<exists>n. ui3 = n @ ''@'' \<and> list_all is_authority_char n)) \<and>
    (rest = [] \<or> \<not> is_authority_char (hd rest)) \<and> legal f \<longrightarrow>
      MangleSCIONAddrURL (w @ ''://'' @ ui3 @ form_text f @ rest) =
        w @ ''://'' @ ui3 @ mangled_text f @ rest)"
proof (intro conjI impI)
  assume a: "url_parts url = (pre, ui, host, tail) \<and> parseSCIONAddr host = Some (d, a, port)"
  then have p: "url_parts url = (pre, ui, host, tail)" and s: "parseSCIONAddr host = Some (d, a, port)"
    by simp_all
  from url_parts_join [OF p] show "url = pre @ ui @ host @ tail"
    by simp
  show "MangleSCIONAddrURL url = pre @ ui @ ''['' @ d @ '','' @ a @ '']'' @ port_suffix port @ tail"
    unfolding Mangle_parts [OF p] by (simp add: mangleSCIONAddr_def s)
  from parseSCIONAddr_sound [OF s] show "is_domain d" and "is_ip a"
    and "port = None \<or> (\<exists>p. port = Some p \<and> is_port p)"
    and "host = d @ '','' @ a @ port_suffix port \<or>
       host = d @ '','' @ ''['' @ a @ '']'' @ port_suffix port"
    by simp_all
next
  assume "parseSCIONAddr (url_Host url1) = None"
  then show "MangleSCIONAddrURL url1 = url1"
    by (rule Mangle_noop)
next
  assume "CHR '','' \<notin> set (url_Host url2)"
  then show "MangleSCIONAddrURL url2 = url2"
    by (rule Mangle_no_comma)
next
  assume "is_scheme w \<and> (ui3 = [] \<or> (\<exists>n. ui3 = n @ ''@'' \<and> list_all is_authority_char n)) \<and>
    list_all is_authority_char h \<and> CHR ''@'' \<notin> set h \<and>
    (rest = [] \<or> \<not> is_authority_char (hd rest))"
  then show "url_parts (w @ ''://'' @ ui3 @ h @ rest) = (w @ ''://'', ui3, h, rest)"
    by (intro url_parts_split) simp_all
next
  assume "is_scheme w \<and> (ui3 = [] \<or> (\<exists>n. ui3 = n @ ''@'' \<and> list_all is_authority_char n)) \<and>
    (rest = [] \<or> \<not> is_authority_char (hd rest)) \<and> legal f"
  then show "MangleSCIONAddrURL (w @ ''://'' @ ui3 @ form_text f @ rest) =
        w @ ''://'' @ ui3 @ mangled_text f @ rest"
    by (intro Mangle_legal(1)) simp_all
qed

text \<open>
  The theorem at rows of the table of \<open>TestMangleSCIONAddrURL\<close>: at a URL with a
  password in its user-info and a fragment behind its path, at a host name with a port,
  at a plain IP address, at a host with a comma that is no Structured Address, and at
  \<open>1-ff00:0:110,[::1]\<close> behind a user-info with a dot.
\<close>

theorem Mangle_rewrites_host_witness:
  "url_parts ''https://user:pw@1-ff00:0:110,127.0.0.1:80/hello#top'' =
     (''https://'', ''user:pw@'', ''1-ff00:0:110,127.0.0.1:80'', ''/hello#top'') \<and>
   parseSCIONAddr ''1-ff00:0:110,127.0.0.1:80'' = Some (''1-ff00:0:110'', ''127.0.0.1'', Some ''80'') \<and>
   MangleSCIONAddrURL ''https://user:pw@1-ff00:0:110,127.0.0.1:80/hello#top'' =
     ''https://user:pw@[1-ff00:0:110,127.0.0.1]:80/hello#top'' \<and>
   is_domain ''1-ff00:0:110'' \<and> is_ip ''127.0.0.1'' \<and>
   parseSCIONAddr (url_Host ''https://foo:80/hello'') = None \<and>
   MangleSCIONAddrURL ''https://foo:80/hello'' = ''https://foo:80/hello'' \<and>
   parseSCIONAddr (url_Host ''https://user@abc,def/hello'') = None \<and>
   MangleSCIONAddrURL ''https://user@abc,def/hello'' = ''https://user@abc,def/hello'' \<and>
   CHR '','' \<notin> set (url_Host ''https://127.0.0.1:80?boo=bla'') \<and>
   MangleSCIONAddrURL ''https://127.0.0.1:80?boo=bla'' = ''https://127.0.0.1:80?boo=bla'' \<and>
   is_scheme ''https'' \<and> legal (IPv6Bracket ''1-ff00:0:110'' ''::1'') \<and>
   url_parts ''https://john.doe@1-ff00:0:110,[::1]/hello?boo=bla'' =
     (''https://'', ''john.doe@'', ''1-ff00:0:110,[::1]'', ''/hello?boo=bla'') \<and>
   MangleSCIONAddrURL ''https://john.doe@1-ff00:0:110,[::1]/hello?boo=bla'' =
     ''https://john.doe@[1-ff00:0:110,::1]/hello?boo=bla''"
proof -
  have u: "url_parts ''https://user:pw@1-ff00:0:110,127.0.0.1:80/hello#top'' =
     (''https://'', ''user:pw@'', ''1-ff00:0:110,127.0.0.1:80'', ''/hello#top'')"
    by (simp add: url_parts_def text_defs)
  have p: "parseSCIONAddr ''1-ff00:0:110,127.0.0.1:80'' =
      Some (''1-ff00:0:110'', ''127.0.0.1'', Some ''80'')"
    by (simp add: text_defs)
  have n: "parseSCIONAddr (url_Host ''https://foo:80/hello'') = None"
    by (simp add: url_Host_def url_parts_def text_defs)
  have n2: "parseSCIONAddr (url_Host ''https://user@abc,def/hello'') = None"
    by (simp add: url_Host_def url_parts_def text_defs)
  have c: "CHR '','' \<notin> set (url_Host ''https://127.0.0.1:80?boo=bla'')"
    by (simp add: url_Host_def url_parts_def text_defs)
  have w: "is_scheme ''https''"
    by (rule is_scheme_https)
  have ui: "''john.doe@'' = [] \<or> (\<exists>n. ''john.doe@'' = n @ ''@'' \<and> list_all is_authority_char n)"
    by (intro disjI2 exI [of _ "''john.doe''"]) (simp add: is_authority_char_def)
  have h: "list_all is_authority_char ''1-ff00:0:110,[::1]'' \<and> CHR ''@'' \<notin> set ''1-ff00:0:110,[::1]''"
    by (simp add: is_authority_char_def)
  have tl: "''/hello?boo=bla'' = [] \<or> \<not> is_authority_char (hd ''/hello?boo=bla'')"
    by simp
  have l: "legal (IPv6Bracket ''1-ff00:0:110'' ''::1'')"
    by (simp add: text_defs)
  note inst = Mangle_rewrites_host [where url = "''https://user:pw@1-ff00:0:110,127.0.0.1:80/hello#top''"
      and pre = "''https://''" and ui = "''user:pw@''" and host = "''1-ff00:0:110,127.0.0.1:80''"
      and tail = "''/hello#top''" and d = "''1-ff00:0:110''" and a = "''127.0.0.1''"
      and port = "Some ''80''" and ?url1.0 = "''https://foo:80/hello''"
      and ?url2.0 = "''https://127.0.0.1:80?boo=bla''" and w = "''https''" and ?ui3.0 = "''john.doe@''"
      and h = "''1-ff00:0:110,[::1]''" and rest = "''/hello?boo=bla''"
      and f = "IPv6Bracket ''1-ff00:0:110'' ''::1''"]
  note inst2 = Mangle_rewrites_host [where ?url1.0 = "''https://user@abc,def/hello''"]
  from inst u p have c1: "MangleSCIONAddrURL ''https://user:pw@1-ff00:0:110,127.0.0.1:80/hello#top'' =
     ''https://user:pw@[1-ff00:0:110,127.0.0.1]:80/hello#top'' \<and>
     is_domain ''1-ff00:0:110'' \<and> is_ip ''127.0.0.1''"
    by (simp add: port_suffix_def)
  from inst n have c2: "MangleSCIONAddrURL ''https://foo:80/hello'' = ''https://foo:80/hello''"
    by blast
  from inst2 n2 have c3: "MangleSCIONAddrURL ''https://user@abc,def/hello'' = ''https://user@abc,def/hello''"
    by blast
  from inst c have c4: "MangleSCIONAddrURL ''https://127.0.0.1:80?boo=bla'' = ''https://127.0.0.1:80?boo=bla''"
    by blast
  from inst w ui h tl have c5: "url_parts ''https://john.doe@1-ff00:0:110,[::1]/hello?boo=bla'' =
     (''https://'', ''john.doe@'', ''1-ff00:0:110,[::1]'', ''/hello?boo=bla'')"
    by simp
  from inst w ui tl l have c6: "MangleSCIONAddrURL ''https://john.doe@1-ff00:0:110,[::1]/hello?boo=bla'' =
     ''https://john.doe@[1-ff00:0:110,::1]/hello?boo=bla''"
    by simp
  show ?thesis
    using u p c1 n c2 n2 c3 c c4 w l c5 c6 by blast
qed




subsection \<open>Claims about the dial path\<close>

text \<open>
  Claim C5. For an \<open>https\<close> URL whose host is one of the seven legal forms, whatever
  its user-info and the rest behind the host, the address that reaches the dial function,
  unmangled and resolved, is what the spec gives: for a host name the address the resolver
  has for it, and the error of the resolver when it has none; for a Structured Address
  that address, an IPv6 host in brackets; with the port of the URL, and with 443 when the
  URL has none.
\<close>

theorem dial_reaches_resolved_address:
  assumes "ui = [] \<or> (\<exists>n. ui = n @ ''@'' \<and> list_all is_authority_char n)"
    and "tail = [] \<or> \<not> is_authority_char (hd tail)"
    and "legal f"
  shows "dialed_address resolver (''https://'' @ ui @ form_text f @ tail) = dial_text resolver f"
proof -
  have e: "''https://'' @ ui @ form_text f @ tail = ''https'' @ ''://'' @ ui @ form_text f @ tail"
    by simp
  have h: "url_Host (MangleSCIONAddrURL (''https'' @ ''://'' @ ui @ form_text f @ tail)) =
      mangled_text f"
    using is_scheme_https assms by (rule Mangle_legal(2))
  show ?thesis
    unfolding dialed_address_def e h by (rule dial_unmangled [OF assms(3)])
qed

text \<open>
  The theorem at rows of the table of \<open>TestRoundTripper\<close>, with its resolver table,
  and at a name the table does not have.
\<close>

theorem dial_reaches_resolved_address_witness:
  "legal (Host ''host'') \<and>
   testResolver ''host'' = Some (''1-ff00:0:1'', ''192.0.2.1'') \<and>
   dialed_address testResolver ''https://host'' = Inr ''1-ff00:0:1,192.0.2.1:443'' \<and>
   dialed_address testResolver ''https://user@host:80/hello?boo=bla'' =
     Inr ''1-ff00:0:1,192.0.2.1:80'' \<and>
   dialed_address testResolver ''https://1-ff00:0:110,127.0.0.1/hello'' =
     Inr ''1-ff00:0:110,127.0.0.1:443'' \<and>
   dialed_address testResolver ''https://1-ff00:0:110,::1?boo=bla'' =
     Inr ''1-ff00:0:110,[::1]:443'' \<and>
   dialed_address testResolver ''https://user@1-ff00:0:110,[::1]:80'' =
     Inr ''1-ff00:0:110,[::1]:80'' \<and>
   testResolver ''other'' = None \<and>
   dialed_address testResolver ''https://other'' = Inl (HostNotFound ''other'')"
proof -
  have u0: "[] = [] \<or> (\<exists>n. [] = n @ ''@'' \<and> list_all is_authority_char n)"
    by simp
  have u1: "''user@'' = [] \<or> (\<exists>n. ''user@'' = n @ ''@'' \<and> list_all is_authority_char n)"
    by (intro disjI2 exI [of _ "''user''"]) (simp add: is_authority_char_def)
  have t0: "[] = [] \<or> \<not> is_authority_char (hd [])"
    by simp
  have t1: "''/hello?boo=bla'' = [] \<or> \<not> is_authority_char (hd ''/hello?boo=bla'')"
    and t2: "''/hello'' = [] \<or> \<not> is_authority_char (hd ''/hello'')"
    and t3: "''?boo=bla'' = [] \<or> \<not> is_authority_char (hd ''?boo=bla'')"
    by simp_all
  have l1: "legal (Host ''host'')"
    and l2: "legal (HostPort ''host'' ''80'')"
    and l3: "legal (IPv4 ''1-ff00:0:110'' ''127.0.0.1'')"
    and l4: "legal (IPv6 ''1-ff00:0:110'' ''::1'')"
    and l5: "legal (IPv6BracketPort ''1-ff00:0:110'' ''::1'' ''80'')"
    and l6: "legal (Host ''other'')"
    by (simp_all add: text_defs)
  have r: "testResolver ''host'' = Some (''1-ff00:0:1'', ''192.0.2.1'')"
    and r2: "testResolver ''other'' = None"
    by (simp_all add: testResolver_def)
  from dial_reaches_resolved_address [OF u0 t0 l1, of testResolver] r
  have c1: "dialed_address testResolver ''https://host'' = Inr ''1-ff00:0:1,192.0.2.1:443''"
    by (simp add: UDPAddr_String_def)
  from dial_reaches_resolved_address [OF u1 t1 l2, of testResolver] r
  have c2: "dialed_address testResolver ''https://user@host:80/hello?boo=bla'' =
     Inr ''1-ff00:0:1,192.0.2.1:80''"
    by (simp add: UDPAddr_String_def)
  from dial_reaches_resolved_address [OF u0 t2 l3, of testResolver]
  have c3: "dialed_address testResolver ''https://1-ff00:0:110,127.0.0.1/hello'' =
     Inr ''1-ff00:0:110,127.0.0.1:443''"
    by simp
  from dial_reaches_resolved_address [OF u0 t3 l4, of testResolver]
  have c4: "dialed_address testResolver ''https://1-ff00:0:110,::1?boo=bla'' =
     Inr ''1-ff00:0:110,[::1]:443''"
    by simp
  from dial_reaches_resolved_address [OF u1 t0 l5, of testResolver]
  have c5: "dialed_address testResolver ''https://user@1-ff00:0:110,[::1]:80'' =
     Inr ''1-ff00:0:110,[::1]:80''"
    by simp
  from dial_reaches_resolved_address [OF u0 t0 l6, of testResolver] r2
  have c6: "dialed_address testResolver ''https://other'' = Inl (HostNotFound ''other'')"
    by simp
  show ?thesis
    using l1 r c1 c2 c3 c4 c5 r2 c6 by blast
qed

end
